theory Spec2Isabelle
  imports Complex_Main "HOL-Library.Char_ord" "HOL-Library.List_Lexorder"
begin

section \<open>Python values used by the service\<close>

text \<open>
  Python strings are modelled as Isabelle strings: lists of characters with code points
  0 to 255. The text files of the service (\<open>mpv.conf\<close>, \<open>mpv-remote.conf\<close>,
  \<open>commands\<close>) are given as the text that \<open>f.read()\<close> returns.
\<close>

datatype error =
    TypeError
  | ValueError
  | KeyError
  | IndexError
  | AttributeError
  | BrokenPipeError
  | OverflowError
  | FileNotFoundError
  | OSError

text \<open>\<open>str.isspace\<close> on one character (the white space of \<open>str.strip()\<close>).\<close>

definition is_space :: "char \<Rightarrow> bool" where
  "is_space c = (c \<in> set [CHR 0x09, CHR 0x0A, CHR 0x0B, CHR 0x0C, CHR 0x0D,
                           CHR 0x1C, CHR 0x1D, CHR 0x1E, CHR 0x1F, CHR 0x20,
                           CHR 0x85, CHR 0xA0])"

definition lstrip :: "string \<Rightarrow> string" where
  "lstrip s = dropWhile is_space s"

definition rstrip :: "string \<Rightarrow> string" where
  "rstrip s = rev (dropWhile is_space (rev s))"

definition strip :: "string \<Rightarrow> string" where
  "strip s = rstrip (lstrip s)"

definition startswith :: "string \<Rightarrow> string \<Rightarrow> bool" where
  "startswith s p = (take (length p) s = p)"

text \<open>The line boundaries of \<open>str.splitlines()\<close> below code point 256.\<close>

definition is_linebreak :: "char \<Rightarrow> bool" where
  "is_linebreak c = (c \<in> set [CHR 0x0A, CHR 0x0B, CHR 0x0C, CHR 0x0D,
                               CHR 0x1C, CHR 0x1D, CHR 0x1E, CHR 0x85])"

text \<open>
  \<open>str.splitlines()\<close>: the line boundaries are removed, \<open>\r\n\<close> counts as one
  boundary, and a boundary at the very end opens no further line.
\<close>

fun splitlines :: "string \<Rightarrow> string list" where
  "splitlines [] = []"
| "splitlines (c # cs) =
     (if is_linebreak c then
        (case cs of
           d # ds \<Rightarrow> if c = CHR 0x0D \<and> d = CHR 0x0A then [] # splitlines ds
                     else [] # splitlines cs
         | [] \<Rightarrow> [[]])
      else
        (case splitlines cs of
           [] \<Rightarrow> [[c]]
         | l # ls \<Rightarrow> (c # l) # ls))"

text \<open>\<open>s.split(sep, 1)[0]\<close> for a one-character separator: the text before its first occurrence.\<close>

definition split1_head :: "char \<Rightarrow> string \<Rightarrow> string" where
  "split1_head sep s = takeWhile (\<lambda>c. c \<noteq> sep) s"

section \<open>ConfigStore (server-rewrite.py, class Config)\<close>

text \<open>
  \<open>Config.mpv_config\<close>: the file \<open>mpv.conf\<close> of the preferences directory is opened on
  every call; \<open>None\<close> stands for a file that cannot be opened, where \<open>open()\<close> raises.
\<close>

definition mpv_config_lines :: "string \<Rightarrow> string list" where
  "mpv_config_lines text =
     map (\<lambda>ln. ''--'' @ split1_head (CHR ''#'') (strip ln))
       (filter (\<lambda>ln. ln \<noteq> [] \<and> \<not> startswith (strip ln) ''#'') (splitlines text))"

definition mpv_config :: "string option \<Rightarrow> error + string list" where
  "mpv_config conf_file =
     (case conf_file of
        None \<Rightarrow> Inl FileNotFoundError
      | Some text \<Rightarrow> Inr (mpv_config_lines text))"

text \<open>
  The config of the class body of \<open>MpvRequestHandler\<close> in server.py:
  \<open>['--{}'.format(o) for o in f.read().splitlines() if '=' in o and not o.startswith('#')]\<close>.
\<close>

definition legacy_config :: "string \<Rightarrow> string list" where
  "legacy_config text =
     map (\<lambda>ln. ''--'' @ ln)
       (filter (\<lambda>ln. CHR ''='' \<in> set ln \<and> \<not> startswith ln ''#'') (splitlines text))"


text \<open>
  \<open>base64.standard_b64encode\<close> on a byte string, three bytes at a time, padded with
  \<open>=\<close>.
\<close>

definition b64_alphabet :: string where
  "b64_alphabet = ''ABCDEFGHIJKLMNOPQRSTUVWXYZabcdefghijklmnopqrstuvwxyz0123456789+/''"

definition b64_digit :: "nat \<Rightarrow> char" where
  "b64_digit n = b64_alphabet ! (n mod 64)"

fun standard_b64encode :: "string \<Rightarrow> string" where
  "standard_b64encode [] = []"
| "standard_b64encode [a] =
     (let x = (of_char a :: nat)
      in [b64_digit (x div 4), b64_digit ((x mod 4) * 16), CHR ''='', CHR ''=''])"
| "standard_b64encode [a, b] =
     (let x = (of_char a :: nat); y = (of_char b :: nat)
      in [b64_digit (x div 4), b64_digit ((x mod 4) * 16 + y div 16),
          b64_digit ((y mod 16) * 4), CHR ''=''])"
| "standard_b64encode (a # b # c # rest) =
     (let x = (of_char a :: nat); y = (of_char b :: nat); z = (of_char c :: nat)
      in [b64_digit (x div 4), b64_digit ((x mod 4) * 16 + y div 16),
          b64_digit ((y mod 16) * 4 + z div 64), b64_digit (z mod 64)]
         @ standard_b64encode rest)"

text \<open>\<open>bytes.strip()\<close>: the ASCII white space is removed at both ends.\<close>

definition is_ascii_space :: "char \<Rightarrow> bool" where
  "is_ascii_space c =
     (c \<in> set [CHR 0x09, CHR 0x0A, CHR 0x0B, CHR 0x0C, CHR 0x0D, CHR 0x20])"

definition bytes_strip :: "string \<Rightarrow> string" where
  "bytes_strip s = rev (dropWhile is_ascii_space (rev (dropWhile is_ascii_space s)))"

text \<open>
  \<open>Config.login(auth)\<close>: \<open>login_file\<close> is the content of the file \<open>login\<close> of the
  preferences directory, \<open>None\<close> when \<open>is_file()\<close> is false; \<open>auth\<close> is the value of
  the Authorization header, \<open>None\<close> when the request has none.
\<close>

definition login :: "string option \<Rightarrow> string option \<Rightarrow> bool" where
  "login login_file auth =
     (case login_file of
        Some raw \<Rightarrow> auth = Some (''Basic '' @ standard_b64encode (bytes_strip raw))
      | None \<Rightarrow> True)"

subsection \<open>Regular expressions of module re\<close>

text \<open>
  The constructs of the pattern of \<open>Config.folder_config\<close>: literal characters, a
  character class, groups in sequence, alternatives, \<open>?\<close> and \<open>+\<close>. Matching is by
  derivatives.
\<close>

datatype rx =
    Nomatch
  | Eps
  | Chr char
  | Cls "char list"
  | Seq rx rx
  | Alt rx rx
  | Star rx

definition Opt :: "rx \<Rightarrow> rx" where
  "Opt r = Alt r Eps"

definition Plus :: "rx \<Rightarrow> rx" where
  "Plus r = Seq r (Star r)"

fun Str :: "string \<Rightarrow> rx" where
  "Str [] = Eps"
| "Str (c # cs) = Seq (Chr c) (Str cs)"

fun nullable :: "rx \<Rightarrow> bool" where
  "nullable Nomatch = False"
| "nullable Eps = True"
| "nullable (Chr c) = False"
| "nullable (Cls cs) = False"
| "nullable (Seq r s) = (nullable r \<and> nullable s)"
| "nullable (Alt r s) = (nullable r \<or> nullable s)"
| "nullable (Star r) = True"

fun deriv :: "char \<Rightarrow> rx \<Rightarrow> rx" where
  "deriv a Nomatch = Nomatch"
| "deriv a Eps = Nomatch"
| "deriv a (Chr c) = (if a = c then Eps else Nomatch)"
| "deriv a (Cls cs) = (if a \<in> set cs then Eps else Nomatch)"
| "deriv a (Seq r s) =
     (if nullable r then Alt (Seq (deriv a r) s) (deriv a s) else Seq (deriv a r) s)"
| "deriv a (Alt r s) = Alt (deriv a r) (deriv a s)"
| "deriv a (Star r) = Seq (deriv a r) (Star r)"

fun fullmatch :: "rx \<Rightarrow> string \<Rightarrow> bool" where
  "fullmatch r [] = nullable r"
| "fullmatch r (c # cs) = fullmatch (deriv c r) cs"

text \<open>
  \<open>re.match(p + '$', s)\<close>: a prefix of \<open>s\<close> matches \<open>p\<close>, and \<open>$\<close> holds where it
  ends: at the end of \<open>s\<close>, or before a newline that is the last character of \<open>s\<close>.
\<close>

definition re_match_dollar :: "rx \<Rightarrow> string \<Rightarrow> bool" where
  "re_match_dollar p s =
     (fullmatch p s \<or> (s \<noteq> [] \<and> last s = CHR 0x0A \<and> fullmatch p (butlast s)))"

text \<open>
  The pattern
  \<open>((secondary-)?(a|s|v)(id|lang)|(sub|audio)(-delay))=[0-9a-z\.\-]+$\<close>
  without its final \<open>$\<close>.
\<close>

definition value_chars :: "char list" where
  "value_chars = ''0123456789abcdefghijklmnopqrstuvwxyz.-''"

definition allowed :: rx where
  "allowed =
     Seq (Alt (Seq (Opt (Str ''secondary-''))
                 (Seq (Alt (Chr CHR ''a'') (Alt (Chr CHR ''s'') (Chr CHR ''v'')))
                      (Alt (Str ''id'') (Str ''lang''))))
              (Seq (Alt (Str ''sub'') (Str ''audio'')) (Str ''-delay'')))
         (Seq (Chr CHR ''='') (Plus (Cls value_chars)))"

subsection \<open>Paths\<close>

text \<open>
  \<open>str.split(sep)\<close> for a one-character separator, and the parts of a
  \<open>pathlib.PurePosixPath\<close>: empty segments and \<open>.\<close> segments are dropped, the root is
  \<open>/\<close>, or \<open>//\<close> when the text starts with exactly two slashes.
\<close>

fun split_sep :: "char \<Rightarrow> string \<Rightarrow> string list" where
  "split_sep sep [] = [[]]"
| "split_sep sep (c # cs) =
     (if c = sep then [] # split_sep sep cs
      else (case split_sep sep cs of
              [] \<Rightarrow> [[c]]
            | l # ls \<Rightarrow> (c # l) # ls))"

fun join_sep :: "string \<Rightarrow> string list \<Rightarrow> string" where
  "join_sep sep [] = []"
| "join_sep sep [x] = x"
| "join_sep sep (x # y # ys) = x @ sep @ join_sep sep (y # ys)"

definition path_root :: "string \<Rightarrow> string" where
  "path_root s =
     (if startswith s ''//'' \<and> \<not> startswith s ''///'' then ''//''
      else if startswith s ''/'' then ''/''
      else [])"

definition path_parts :: "string \<Rightarrow> string list" where
  "path_parts s = filter (\<lambda>p. p \<noteq> [] \<and> p \<noteq> ''.'') (split_sep (CHR ''/'') s)"

text \<open>\<open>str(Path(fpath).parent / 'mpv-remote.conf')\<close>.\<close>

definition conf_path :: "string \<Rightarrow> string" where
  "conf_path fpath =
     path_root fpath @ join_sep ''/'' (butlast (path_parts fpath) @ [''mpv-remote.conf''])"

text \<open>
  \<open>Config.folder_config(fpath)\<close>: \<open>files\<close> maps the path of a regular file to the
  text read from it, so \<open>files p = None\<close> is \<open>is_file()\<close> being false. A file that
  exists and cannot be read, where \<open>open()\<close> or \<open>read()\<close> raises, is not modelled.
\<close>

definition folder_config :: "(string \<rightharpoonup> string) \<Rightarrow> string \<Rightarrow> string list" where
  "folder_config files fpath =
     (case files (conf_path fpath) of
        Some text \<Rightarrow>
          map (\<lambda>c. ''--'' @ c) (filter (\<lambda>c. re_match_dollar allowed c) (splitlines text))
      | None \<Rightarrow> [])"


subsection \<open>The command table\<close>

text \<open>
  \<open>Config.__init__\<close>: every non-empty line of the file \<open>commands\<close> is split at its
  first \<open>=\<close>; a line without one makes the unpacking raise. Later lines replace earlier
  ones of the same name.
\<close>

fun load_commands :: "string list \<Rightarrow> (string \<rightharpoonup> string) \<Rightarrow> error + (string \<rightharpoonup> string)" where
  "load_commands [] m = Inr m"
| "load_commands (c # cs) m =
     (if c = [] then load_commands cs m
      else if CHR ''='' \<notin> set c then Inl ValueError
      else load_commands cs
             (m(split1_head (CHR ''='') c \<mapsto> drop (Suc (length (split1_head (CHR ''='') c))) c)))"

section \<open>Requests and responses\<close>

text \<open>
  A JSON document as \<open>json.loads\<close> returns it. The type \<open>'f\<close> stands for Python's
  floats, which the service only converts and prints.
\<close>

datatype 'f json =
    JNull
  | JBool bool
  | JInt int
  | JFloat 'f
  | JStr string
  | JArr "'f json list"
  | JObj "(string \<times> 'f json) list"

text \<open>\<open>d.get(key)\<close> on a parsed document: only a dict has the method.\<close>

fun json_get :: "'f json \<Rightarrow> string \<Rightarrow> error + 'f json" where
  "json_get (JObj kvs) k = (case map_of (rev kvs) k of Some v \<Rightarrow> Inr v | None \<Rightarrow> Inr JNull)"
| "json_get _ k = Inl AttributeError"

text \<open>
  The positional arguments of a call \<open>f(*j)\<close>: the elements of a list, the characters
  of a string, the keys of a dict; anything else is not iterable.
\<close>

fun star_args :: "'f json \<Rightarrow> error + 'f json list" where
  "star_args (JArr xs) = Inr xs"
| "star_args (JStr s) = Inr (map (\<lambda>c. JStr [c]) s)"
| "star_args (JObj kvs) = Inr (map (\<lambda>k. JStr k) (rev (remdups (rev (map fst kvs)))))"
| "star_args _ = Inl TypeError"

text \<open>\<open>posixpath.join(a, *p)\<close> on strings.\<close>

fun join_from :: "string \<Rightarrow> string list \<Rightarrow> string" where
  "join_from p [] = p"
| "join_from p (b # bs) =
     (if startswith b ''/'' then join_from b bs
      else if p = [] \<or> last p = CHR ''/'' then join_from (p @ b) bs
      else join_from (p @ ''/'' @ b) bs)"

fun as_str :: "'f json \<Rightarrow> string option" where
  "as_str (JStr s) = Some s"
| "as_str _ = None"

text \<open>
  \<open>os.path.join(*args)\<close>: without an argument the call itself raises TypeError, and
  so does an argument that is not a string.
\<close>

definition os_path_join :: "'f json list \<Rightarrow> error + string" where
  "os_path_join args =
     (case args of
        [] \<Rightarrow> Inl TypeError
      | a # rest \<Rightarrow>
          if \<forall>x \<in> set (a # rest). as_str x \<noteq> None
          then Inr (join_from (the (as_str a)) (map (\<lambda>x. the (as_str x)) rest))
          else Inl TypeError)"

definition join_segments :: "'f json \<Rightarrow> error + string" where
  "join_segments j =
     (case star_args j of
        Inl e \<Rightarrow> Inl e
      | Inr args \<Rightarrow> os_path_join args)"

datatype payload = Bytes string | ErrText error

record response =
  status :: nat
  www_authenticate :: "string option"
  cache_max_age :: "nat option"
  content_type :: "string option"
  body :: payload

text \<open>
  What a handler leaves on the connection: a response, nothing at all (no branch of the
  handler wrote one), or an exception that left the handler.
\<close>

datatype outcome = Responded response | NoResponse | Crashed

record 'f request =
  path :: string
  authorization :: "string option"
  content_length :: "int option"
  body_json :: "'f json option"

text \<open>
  In a request, \<open>content_length\<close> is \<open>int(self.headers.get('Content-Length'))\<close>,
  \<open>None\<close> where \<open>int\<close> raises; \<open>body_json\<close> is \<open>json.loads(data.decode())\<close>,
  \<open>None\<close> where the body is not a JSON document and \<open>json.loads\<close> raises a ValueError.
\<close>

definition ask_auth :: response where
  "ask_auth = \<lparr>status = 401, www_authenticate = Some ''Basic realm=\"mpv-remote\"'',
               cache_max_age = None, content_type = None, body = Bytes []\<rparr>"

definition respond_ok :: "string \<Rightarrow> string \<Rightarrow> nat \<Rightarrow> response" where
  "respond_ok data ctype age =
     \<lparr>status = 200, www_authenticate = None, cache_max_age = Some age,
      content_type = Some ctype, body = Bytes data\<rparr>"

definition respond_notfound :: "payload \<Rightarrow> response" where
  "respond_notfound data =
     \<lparr>status = 404, www_authenticate = None, cache_max_age = None,
      content_type = Some ''text/plain'', body = data\<rparr>"

definition html_utf8 :: string where
  "html_utf8 = ''text/html; charset=utf-8''"


section \<open>The environment of the service\<close>

text \<open>
  What the service reads from outside itself: the files of the preferences directory, the
  per-directory override files, the static directory, the command table loaded at start,
  whether the operating system can start a player with a given argument list, the
  directory listing of \<open>FolderContent(path).as_json()\<close>, and three library functions:
  \<open>float\<close> on a string (\<open>None\<close>: ValueError) and on an integer (\<open>None\<close>:
  OverflowError), \<open>str\<close> on a float, and \<open>urllib.parse.unquote\<close>.
\<close>

record 'f env =
  login_file :: "string option"
  mpv_conf :: "string option"
  files :: "string \<rightharpoonup> string"
  commands :: "string \<rightharpoonup> string"
  static_listing :: "string list option"
  static_files :: "string \<rightharpoonup> string"
  index_html :: "string option"
  can_spawn :: "string list \<Rightarrow> bool"
  folder_content :: "string \<Rightarrow> error + string"
  float_of_str :: "string \<Rightarrow> 'f option"
  float_of_int :: "int \<Rightarrow> 'f option"
  float_repr :: "'f \<Rightarrow> string"
  unquote :: "string \<Rightarrow> string"

section \<open>PlayerSession\<close>

text \<open>
  A player process as the service sees it through its \<open>Popen\<close> object: the argument
  list it was started with, whether it is still running, whether it still holds the read
  end of its standard input, the bytes written to \<open>stdin\<close> and not yet flushed, and what
  has reached it so far, in order.
\<close>

datatype signal = Delivered string | SigKill

record proc =
  argv :: "string list"
  alive :: bool
  reader_open :: bool
  pending :: string
  history :: "signal list"

text \<open>
  The state of the server: the handle \<open>server.mpv_process\<close> (\<open>None\<close> before the first
  play request), the processes whose handle was replaced, what \<open>print(e)\<close> has logged,
  and the static files opened so far.
\<close>

record state =
  mpv_process :: "proc option"
  discarded :: "proc list"
  printed :: "error list"
  opened :: "string list"

definition initial_state :: state where
  "initial_state = \<lparr>mpv_process = None, discarded = [], printed = [], opened = []\<rparr>"

text \<open>\<open>p.stdin.write(data)\<close> fills the buffer of the pipe object.\<close>

definition stdin_write :: "proc \<Rightarrow> string \<Rightarrow> proc" where
  "stdin_write p data = p\<lparr>pending := pending p @ data\<rparr>"

text \<open>
  \<open>p.stdin.flush()\<close> hands the buffer to the pipe; without a reader the write fails
  with a broken pipe and the buffer stays as it is.
\<close>

definition stdin_flush :: "proc \<Rightarrow> error + proc" where
  "stdin_flush p =
     (if reader_open p
      then Inr (p\<lparr>pending := [], history := history p @ [Delivered (pending p)]\<rparr>)
      else Inl BrokenPipeError)"

text \<open>\<open>p.kill()\<close>: SIGKILL ends a running process; on a process that is gone nothing happens.\<close>

definition kill :: "proc \<Rightarrow> proc" where
  "kill p =
     (if alive p
      then p\<lparr>alive := False, reader_open := False, history := history p @ [SigKill]\<rparr>
      else p)"

text \<open>
  \<open>Popen(cmd, stdin=PIPE)\<close>. \<open>OSError\<close> stands for the exception of a spawn that fails,
  whatever its subclass (FileNotFoundError when the executable is missing).
\<close>

definition popen :: "'f env \<Rightarrow> string list \<Rightarrow> error + proc" where
  "popen env cmd =
     (if can_spawn env cmd
      then Inr \<lparr>argv = cmd, alive = True, reader_open = True, pending = [], history = []\<rparr>
      else Inl OSError)"

text \<open>The player leaves on its own (end of file, a quit command, a crash).\<close>

definition proc_exits :: "proc \<Rightarrow> proc" where
  "proc_exits p = p\<lparr>alive := False, reader_open := False\<rparr>"

definition mpv_executable :: string where
  "mpv_executable = ''mpv''"

text \<open>
  The \<open>try\<close> block at the head of \<open>play_file\<close> in server-rewrite.py: the result is the
  exception that ended it, if any, and the process behind the handle afterwards.
\<close>

definition quit_old :: "proc option \<Rightarrow> error option \<times> proc option" where
  "quit_old h =
     (case h of
        None \<Rightarrow> (Some AttributeError, None)
      | Some p \<Rightarrow>
          (case stdin_flush (stdin_write p ''quit\<newline>'') of
             Inl e \<Rightarrow> (Some e, Some (stdin_write p ''quit\<newline>''))
           | Inr p' \<Rightarrow> (None, Some (kill p'))))"

text \<open>The same block in server.py, which writes and kills without flushing.\<close>

definition legacy_quit_old :: "proc option \<Rightarrow> error option \<times> proc option" where
  "legacy_quit_old h =
     (case h of
        None \<Rightarrow> (Some AttributeError, None)
      | Some p \<Rightarrow> (None, Some (kill (stdin_write p ''quit\<newline>''))))"

definition log_error :: "error option \<Rightarrow> state \<Rightarrow> state" where
  "log_error e s = (case e of None \<Rightarrow> s | Some x \<Rightarrow> s\<lparr>printed := printed s @ [x]\<rparr>)"

text \<open>Storing a new handle; the process behind the old one is no longer reachable.\<close>

definition store_handle :: "proc \<Rightarrow> state \<Rightarrow> state" where
  "store_handle p s =
     s\<lparr>mpv_process := Some p,
       discarded := discarded s @ (case mpv_process s of None \<Rightarrow> [] | Some q \<Rightarrow> [q])\<rparr>"

text \<open>The argument list built by \<open>play_file\<close> in server-rewrite.py.\<close>

definition play_cmd :: "string list \<Rightarrow> string list \<Rightarrow> string \<Rightarrow> string list" where
  "play_cmd global_flags folder_flags fpath =
     [mpv_executable, ''--input-terminal=no'', ''--input-file=/dev/stdin'', ''--fs'']
     @ global_flags @ folder_flags @ [''--''] @ [fpath]"

text \<open>
  \<open>MpvRequestHandler.play_file\<close> of server-rewrite.py. \<open>Inl e\<close> is an exception that
  leaves the method; the state is returned in both cases.
\<close>

definition play_file :: "'f env \<Rightarrow> state \<Rightarrow> string \<Rightarrow> (error + unit) \<times> state" where
  "play_file env s fpath =
     (let (e, h) = quit_old (mpv_process s);
          s1 = log_error e (s\<lparr>mpv_process := h\<rparr>)
      in case mpv_config (mpv_conf env) of
           Inl x \<Rightarrow> (Inl x, s1)
         | Inr global_flags \<Rightarrow>
             (case popen env (play_cmd global_flags (folder_config (files env) fpath) fpath) of
                Inl x \<Rightarrow> (Inl x, s1)
              | Inr p \<Rightarrow> (Inr (), store_handle p s1)))"

text \<open>
  \<open>MpvRequestHandler.play_file\<close> of server.py; \<open>config\<close> is the flag list read when the
  class was created.
\<close>

definition legacy_play_file ::
  "'f env \<Rightarrow> string list \<Rightarrow> state \<Rightarrow> string \<Rightarrow> (error + unit) \<times> state" where
  "legacy_play_file env config s fpath =
     (let (e, h) = legacy_quit_old (mpv_process s);
          s1 = log_error e (s\<lparr>mpv_process := h\<rparr>)
      in case popen env ([mpv_executable, ''--input-terminal=no'', ''--input-file=/dev/stdin'']
                          @ config @ [''--'', fpath]) of
           Inl x \<Rightarrow> (Inl x, s1)
         | Inr p \<Rightarrow> (Inr (), store_handle p s1))"

text \<open>The player processes started by the service that are still running.\<close>

definition live :: "state \<Rightarrow> proc list" where
  "live s =
     filter alive (discarded s @ (case mpv_process s of None \<Rightarrow> [] | Some p \<Rightarrow> [p]))"


section \<open>CommandRouter\<close>

text \<open>\<open>float(val)\<close> on a value of a parsed JSON document.\<close>

fun py_float :: "'f env \<Rightarrow> 'f json \<Rightarrow> error + 'f" where
  "py_float env (JFloat x) = Inr x"
| "py_float env (JInt i) =
     (case float_of_int env i of Some x \<Rightarrow> Inr x | None \<Rightarrow> Inl OverflowError)"
| "py_float env (JBool b) =
     (case float_of_int env (if b then 1 else 0) of Some x \<Rightarrow> Inr x | None \<Rightarrow> Inl OverflowError)"
| "py_float env (JStr t) =
     (case float_of_str env t of Some x \<Rightarrow> Inr x | None \<Rightarrow> Inl ValueError)"
| "py_float env JNull = Inl TypeError"
| "py_float env (JArr xs) = Inl TypeError"
| "py_float env (JObj kvs) = Inl TypeError"

definition numeric_commands :: "string list" where
  "numeric_commands = [''vol_set'', ''seek'', ''subdelay'', ''audiodelay'']"

text \<open>
  \<open>MpvRequestHandler.sanitize\<close>: only ValueError is handled; any other exception of
  \<open>float\<close> leaves the method. The value returned is a float or \<open>None\<close>.
\<close>

definition sanitize ::
  "'f env \<Rightarrow> 'f json \<Rightarrow> 'f json \<Rightarrow> error + ('f json \<times> 'f option)" where
  "sanitize env command val =
     (if command \<in> set (map JStr numeric_commands) then
        (case py_float env val of
           Inr x \<Rightarrow> Inr (command, Some x)
         | Inl ValueError \<Rightarrow> Inr (command, None)
         | Inl e \<Rightarrow> Inl e)
      else Inr (command, None))"

text \<open>\<open>str(val)\<close> for the value that \<open>sanitize\<close> returns.\<close>

definition py_str :: "'f env \<Rightarrow> 'f option \<Rightarrow> string" where
  "py_str env v = (case v of None \<Rightarrow> ''None'' | Some x \<Rightarrow> float_repr env x)"

text \<open>
  \<open>template.format(val)\<close> with one positional argument, for templates built from plain
  text, the escapes \<open>{{\<close> and \<open>}}\<close>, and the fields \<open>{}\<close> and \<open>{0}\<close>. The flag is
  \<open>None\<close> before the first field, then \<open>Some True\<close> after an automatically numbered field
  and \<open>Some False\<close> after an explicitly numbered one. Fields that name another argument,
  an attribute, a conversion or a format specification are not modelled and are given as
  ValueError.
\<close>

fun format_from :: "bool option \<Rightarrow> string \<Rightarrow> string \<Rightarrow> error + string" where
  "format_from m arg [] = Inr []"
| "format_from m arg (c # cs) =
     (if c = CHR ''{'' then
        (case cs of
           [] \<Rightarrow> Inl ValueError
         | d # ds \<Rightarrow>
             if d = CHR ''{'' then map_sum id (\<lambda>r. CHR ''{'' # r) (format_from m arg ds)
             else if d = CHR ''}'' then
               (case m of
                  None \<Rightarrow> map_sum id (\<lambda>r. arg @ r) (format_from (Some True) arg ds)
                | Some True \<Rightarrow> Inl IndexError
                | Some False \<Rightarrow> Inl ValueError)
             else if d = CHR ''0'' then
               (case ds of
                  [] \<Rightarrow> Inl ValueError
                | e # es \<Rightarrow>
                    if e = CHR ''}'' then
                      (case m of
                         Some True \<Rightarrow> Inl ValueError
                       | _ \<Rightarrow> map_sum id (\<lambda>r. arg @ r) (format_from (Some False) arg es))
                    else Inl ValueError)
             else Inl ValueError)
      else if c = CHR ''}'' then
        (case cs of
           [] \<Rightarrow> Inl ValueError
         | d # ds \<Rightarrow>
             if d = CHR ''}'' then map_sum id (\<lambda>r. CHR ''}'' # r) (format_from m arg ds)
             else Inl ValueError)
      else map_sum id (\<lambda>r. c # r) (format_from m arg cs))"

definition py_format :: "string \<Rightarrow> string \<Rightarrow> error + string" where
  "py_format template arg = format_from None arg template"

text \<open>\<open>config.commands[command]\<close>: the keys of the table are strings.\<close>

fun lookup_command :: "'f env \<Rightarrow> 'f json \<Rightarrow> error + string" where
  "lookup_command env (JStr name) =
     (case commands env name of Some t \<Rightarrow> Inr t | None \<Rightarrow> Inl KeyError)"
| "lookup_command env (JArr xs) = Inl TypeError"
| "lookup_command env (JObj kvs) = Inl TypeError"
| "lookup_command env _ = Inl KeyError"

text \<open>
  The \<open>try\<close> block of \<open>control_mpv\<close>: the handle is read first, then the template is
  looked up and filled, then the line is written and flushed.
\<close>

definition send_control ::
  "'f env \<Rightarrow> proc option \<Rightarrow> 'f json \<Rightarrow> 'f option \<Rightarrow> error option \<times> proc option" where
  "send_control env h command v =
     (case h of
        None \<Rightarrow> (Some AttributeError, None)
      | Some p \<Rightarrow>
          (case lookup_command env command of
             Inl e \<Rightarrow> (Some e, Some p)
           | Inr template \<Rightarrow>
               (case py_format template (py_str env v) of
                  Inl e \<Rightarrow> (Some e, Some p)
                | Inr line \<Rightarrow>
                    (case stdin_flush (stdin_write p (line @ ''\<newline>'')) of
                       Inl e \<Rightarrow> (Some e, Some (stdin_write p (line @ ''\<newline>'')))
                     | Inr p' \<Rightarrow> (None, Some p')))))"

text \<open>
  \<open>MpvRequestHandler.control_mpv\<close> of server-rewrite.py: \<open>sanitize\<close> is called before
  the \<open>try\<close> block, so its exception leaves the method.
\<close>

definition control_mpv ::
  "'f env \<Rightarrow> state \<Rightarrow> 'f json \<Rightarrow> 'f json \<Rightarrow> (error + unit) \<times> state" where
  "control_mpv env s command val =
     (case sanitize env command val of
        Inl e \<Rightarrow> (Inl e, s)
      | Inr (command', v) \<Rightarrow>
          (let (e, h) = send_control env (mpv_process s) command' v
           in (Inr (), log_error e (s\<lparr>mpv_process := h\<rparr>))))"

section \<open>RequestDispatcher\<close>

text \<open>The extension of \<open>os.path.splitext\<close>: the last dot of the base name, leading dots apart.\<close>

definition splitext_ext :: "string \<Rightarrow> string" where
  "splitext_ext p =
     (let base = rev (takeWhile (\<lambda>c. c \<noteq> CHR ''/'') (rev p));
          suffix = rev (takeWhile (\<lambda>c. c \<noteq> CHR ''.'') (rev base));
          stem = take (length base - length suffix - 1) base
      in if CHR ''.'' \<in> set base \<and> (\<exists>c \<in> set stem. c \<noteq> CHR ''.'')
         then CHR ''.'' # suffix else [])"

definition static_content_type :: "string \<Rightarrow> string" where
  "static_content_type ext =
     (if ext = ''.css'' then ''text/css; charset=utf-8''
      else if ext = ''.html'' then ''text/html; charset=utf-8''
      else if ext = ''.js'' then ''application/javascript; charset=utf-8''
      else ''application/octet-stream'')"

text \<open>
  \<open>MpvRequestHandler.serve_static\<close> of server-rewrite.py. \<open>Inl e\<close> is the exception of
  \<open>os.listdir\<close>, which is outside the \<open>try\<close> block of the method. A name of the listing
  that cannot be opened for reading (a directory, for one) has no entry in
  \<open>static_files\<close>.
\<close>

definition serve_static :: "'f env \<Rightarrow> state \<Rightarrow> string \<Rightarrow> (error + response) \<times> state" where
  "serve_static env s request_path =
     (let requested = unquote env (drop (length ''/static/'') request_path)
      in case static_listing env of
           None \<Rightarrow> (Inl FileNotFoundError, s)
         | Some names \<Rightarrow>
             if requested \<notin> set names
             then (Inr (respond_notfound (Bytes ''file not found'')), s)
             else
               (case static_files env requested of
                  Some data \<Rightarrow>
                    (Inr (respond_ok data (static_content_type (splitext_ext requested)) 315360000),
                     s\<lparr>opened := opened s @ [requested]\<rparr>)
                | None \<Rightarrow>
                    (Inr (respond_notfound (Bytes ''error reading file'')),
                     s\<lparr>opened := opened s @ [requested], printed := printed s @ [OSError]\<rparr>)))"

text \<open>\<open>MpvRequestHandler.serve_static\<close> of server.py.\<close>

definition legacy_serve_static :: "'f env \<Rightarrow> state \<Rightarrow> string \<Rightarrow> (error + response) \<times> state" where
  "legacy_serve_static env s request_path =
     (let requested = unquote env (drop (length ''/static/'') request_path)
      in case static_listing env of
           None \<Rightarrow> (Inl FileNotFoundError, s)
         | Some names \<Rightarrow>
             if requested \<notin> set names
             then (Inr (respond_notfound (Bytes ''file not found'')), s)
             else
               (case static_files env requested of
                  Some data \<Rightarrow>
                    (Inr (respond_ok data
                            (if splitext_ext requested = ''.css'' then ''text/css''
                             else ''application/octet-stream'') 315360000),
                     s\<lparr>opened := opened s @ [requested]\<rparr>)
                | None \<Rightarrow>
                    (Inr (respond_notfound (Bytes ''error reading file'')),
                     s\<lparr>opened := opened s @ [requested], printed := printed s @ [OSError]\<rparr>)))"

text \<open>\<open>MpvRequestHandler.do_GET\<close> of server-rewrite.py.\<close>

definition do_GET :: "'f env \<Rightarrow> state \<Rightarrow> 'f request \<Rightarrow> outcome \<times> state" where
  "do_GET env s req =
     (if \<not> login (login_file env) (authorization req) then (Responded ask_auth, s)
      else if startswith (path req) ''/static/'' then
        (case serve_static env s (path req) of
           (Inr r, s') \<Rightarrow> (Responded r, s')
         | (Inl e, s') \<Rightarrow> (Responded (respond_notfound (ErrText e)), s'))
      else if path req = ''/'' then
        (case index_html env of
           Some data \<Rightarrow> (Responded (respond_ok data html_utf8 0), s)
         | None \<Rightarrow> (Responded (respond_notfound (ErrText FileNotFoundError)), s))
      else (Responded (respond_notfound (Bytes ''404'')), s))"

text \<open>
  \<open>MpvRequestHandler.do_POST\<close> of server-rewrite.py. Every exception raised inside the
  \<open>try\<close> block becomes a 404 whose body is the text of the exception.
\<close>

definition post_dir :: "'f env \<Rightarrow> state \<Rightarrow> 'f json option \<Rightarrow> (error + response) \<times> state" where
  "post_dir env s parsed =
     (case parsed of
        None \<Rightarrow> (Inl ValueError, s)
      | Some j \<Rightarrow>
          (case join_segments j of
             Inl e \<Rightarrow> (Inl e, s)
           | Inr dir_path \<Rightarrow>
               (case folder_content env dir_path of
                  Inl e \<Rightarrow> (Inl e, s)
                | Inr c \<Rightarrow> (Inr (respond_ok c ''application/json'' 0), s))))"

definition post_play :: "'f env \<Rightarrow> state \<Rightarrow> 'f json option \<Rightarrow> (error + response) \<times> state" where
  "post_play env s parsed =
     (case parsed of
        None \<Rightarrow> (Inl ValueError, s)
      | Some j \<Rightarrow>
          (case join_segments j of
             Inl e \<Rightarrow> (Inl e, s)
           | Inr file_path \<Rightarrow>
               (case play_file env s file_path of
                  (Inl e, s') \<Rightarrow> (Inl e, s')
                | (Inr _, s') \<Rightarrow> (Inr (respond_ok [] html_utf8 0), s'))))"

definition post_control :: "'f env \<Rightarrow> state \<Rightarrow> 'f json option \<Rightarrow> (error + response) \<times> state" where
  "post_control env s parsed =
     (case parsed of
        None \<Rightarrow> (Inl ValueError, s)
      | Some j \<Rightarrow>
          (case json_get j ''command'' of
             Inl e \<Rightarrow> (Inl e, s)
           | Inr command \<Rightarrow>
               (case json_get j ''val'' of
                  Inl e \<Rightarrow> (Inl e, s)
                | Inr val \<Rightarrow>
                    (case control_mpv env s command val of
                       (Inl e, s') \<Rightarrow> (Inl e, s')
                     | (Inr _, s') \<Rightarrow> (Inr (respond_ok [] html_utf8 0), s')))))"

text \<open>The \<open>except\<close> clause of \<open>do_POST\<close>.\<close>

definition or_notfound :: "(error + response) \<times> state \<Rightarrow> outcome \<times> state" where
  "or_notfound r =
     (case r of
        (Inr resp, s') \<Rightarrow> (Responded resp, s')
      | (Inl e, s') \<Rightarrow> (Responded (respond_notfound (ErrText e)), s'))"

definition do_POST :: "'f env \<Rightarrow> state \<Rightarrow> 'f request \<Rightarrow> outcome \<times> state" where
  "do_POST env s req =
     (if \<not> login (login_file env) (authorization req) then (Responded ask_auth, s)
      else
        (case content_length req of
           None \<Rightarrow> (Crashed, s)
         | Some n \<Rightarrow>
             if path req = ''/dir'' then or_notfound (post_dir env s (body_json req))
             else if path req = ''/play'' then or_notfound (post_play env s (body_json req))
             else if path req = ''/control'' then or_notfound (post_control env s (body_json req))
             else (NoResponse, s)))"

section \<open>DirectoryViewer (server.py)\<close>

text \<open>
  An entry of the directory as \<open>iterdir()\<close> yields it: its last part, its full path as
  text, what \<open>is_dir()\<close> and \<open>is_file()\<close> report (a broken link is neither and does not
  exist), and \<open>stat().st_mtime\<close>, of which only the order is used.
\<close>

datatype kind = Dir | File | Special | Broken

record entry =
  name :: string
  full :: string
  kind :: kind
  st_mtime :: rat

definition is_dir :: "entry \<Rightarrow> bool" where
  "is_dir x = (kind x = Dir)"

definition is_file :: "entry \<Rightarrow> bool" where
  "is_file x = (kind x = File)"

definition exists_entry :: "entry \<Rightarrow> bool" where
  "exists_entry x = (kind x \<noteq> Broken)"

text \<open>\<open>str.lower()\<close> on the characters below code point 256.\<close>

definition lower_char :: "char \<Rightarrow> char" where
  "lower_char c =
     (let n = (of_char c :: nat)
      in if (65 \<le> n \<and> n \<le> 90) \<or> (192 \<le> n \<and> n \<le> 222 \<and> n \<noteq> 215)
         then char_of (n + 32) else c)"

definition lower :: "string \<Rightarrow> string" where
  "lower s = map lower_char s"

text \<open>\<open>DirectoryViewer.sort_compare\<close>; a truth value counts as 1 or 0.\<close>

definition sort_compare :: "entry \<Rightarrow> entry \<Rightarrow> rat" where
  "sort_compare a b =
     (if is_dir a then
        (if is_dir b then (if st_mtime a < st_mtime b then 1 else 0) - 1 / 2
         else - 1)
      else
        (if is_dir b then 1
         else (if lower (full a) > lower (full b) then 1 else 0) - 1 / 2))"

text \<open>
  \<open>sorted(items, key=cmp_to_key(cmp))\<close>: the keys are compared with \<open><\<close> only, which is
  \<open>cmp(a, b) < 0\<close>. The list is built by insertion from the left, each item going in
  front of the first one it is less than, as the binary insertion of \<open>list.sort\<close> places
  it.
\<close>

fun insert_key :: "('a \<Rightarrow> 'a \<Rightarrow> rat) \<Rightarrow> 'a \<Rightarrow> 'a list \<Rightarrow> 'a list" where
  "insert_key cmp x [] = [x]"
| "insert_key cmp x (y # ys) =
     (if cmp x y < 0 then x # y # ys else y # insert_key cmp x ys)"

definition sorted_by_cmp :: "('a \<Rightarrow> 'a \<Rightarrow> rat) \<Rightarrow> 'a list \<Rightarrow> 'a list" where
  "sorted_by_cmp cmp xs = foldl (\<lambda>acc x. insert_key cmp x acc) [] xs"

text \<open>
  A link of the listing, before \<open>quote\<close> and \<open>html.escape\<close> are applied to its target
  and its text.
\<close>

record link =
  cls :: string
  func :: string
  fa :: string
  target :: string
  text_of :: string

definition vid_ext :: "string list" where
  "vid_ext = [''avi'', ''mp4'', ''mkv'', ''ogv'', ''ogg'', ''flv'', ''m4v'',
              ''mov'', ''mpg'', ''mpeg'', ''wmv'']"

text \<open>\<open>Path.suffix\<close>: the last dot of the name and what follows, unless the dot starts or ends the name.\<close>

definition suffix :: "string \<Rightarrow> string" where
  "suffix nm =
     (let ext = rev (takeWhile (\<lambda>c. c \<noteq> CHR ''.'') (rev nm))
      in if CHR ''.'' \<in> set nm \<and> ext \<noteq> [] \<and> length ext + 1 < length nm
         then CHR ''.'' # ext else [])"

text \<open>The items of the loop for which a link is appended.\<close>

definition listed :: "entry \<Rightarrow> bool" where
  "listed x = (\<not> startswith (name x) ''.'' \<and> (is_file x \<or> is_dir x))"

definition link_of :: "entry \<Rightarrow> link" where
  "link_of x =
     (if is_file x then
        (if drop 1 (suffix (name x)) \<in> set vid_ext
         then \<lparr>cls = ''video'', func = ''play'', fa = ''fa fa-file-video-o'',
               target = full x, text_of = name x\<rparr>
         else \<lparr>cls = ''file'', func = ''play'', fa = [],
               target = full x, text_of = name x\<rparr>)
      else \<lparr>cls = ''folder'', func = ''dir'', fa = ''fa fa-folder'',
            target = full x, text_of = name x\<rparr>)"

fun content_links :: "entry list \<Rightarrow> link list" where
  "content_links [] = []"
| "content_links (x # xs) =
     (if startswith (name x) ''.'' then content_links xs
      else if is_file x \<or> is_dir x then link_of x # content_links xs
      else content_links xs)"

definition valid_items :: "entry list \<Rightarrow> entry list" where
  "valid_items items = filter exists_entry items"

text \<open>\<open>str(Path(dir) / nm)\<close> for a name \<open>nm\<close> of one part.\<close>

definition path_child :: "string \<Rightarrow> string \<Rightarrow> string" where
  "path_child dir nm = path_root dir @ join_sep ''/'' (path_parts dir @ [nm])"

text \<open>
  \<open>DirectoryViewer.generate_content_links\<close> for the directory \<open>dir\<close> whose
  \<open>iterdir()\<close> yields \<open>items\<close>.
\<close>

definition generate_content_links :: "string \<Rightarrow> entry list \<Rightarrow> link list" where
  "generate_content_links dir items =
     \<lparr>cls = ''file'', func = ''play'', fa = ''fa fa-asterisk'',
      target = path_child dir ''*'', text_of = ''(play all)''\<rparr>
     # content_links (sorted_by_cmp sort_compare (valid_items items))"


section \<open>Library functions made concrete\<close>

text \<open>
  \<open>urllib.parse.unquote\<close> on text whose escapes \<open>%XX\<close> denote ASCII characters: an
  escape becomes its character, a \<open>%\<close> not followed by two hexadecimal digits stays.
\<close>

definition hex_val :: "char \<Rightarrow> nat option" where
  "hex_val c =
     (let n = (of_char c :: nat)
      in if 48 \<le> n \<and> n \<le> 57 then Some (n - 48)
         else if 65 \<le> n \<and> n \<le> 70 then Some (n - 55)
         else if 97 \<le> n \<and> n \<le> 102 then Some (n - 87)
         else None)"

fun percent_decode :: "string \<Rightarrow> string" where
  "percent_decode (c # a # b # rest) =
     (if c = CHR ''%'' then
        (case (hex_val a, hex_val b) of
           (Some x, Some y) \<Rightarrow> char_of (16 * x + y) # percent_decode rest
         | _ \<Rightarrow> c # percent_decode (a # b # rest))
      else c # percent_decode (a # b # rest))"
| "percent_decode cs = cs"

section \<open>A sample installation\<close>

text \<open>
  An environment for the concrete evaluations below: no login file, the global options
  of the specification's scenario, one directory with an override file, two commands and
  two static files. Floats are stood for by their printed text.
\<close>

definition sample_env :: "string env" where
  "sample_env =
     \<lparr>login_file = None,
      mpv_conf = Some ''fullscreen\<newline>#comment\<newline>volume=50'',
      files = [''/media/mpv-remote.conf'' \<mapsto> ''sid=2\<newline>script=/tmp/x.lua\<newline>sub-delay=-0.5''],
      commands = [''pause'' \<mapsto> ''cycle pause'', ''seek'' \<mapsto> ''seek {} absolute''],
      static_listing = Some [''index.html'', ''style.css''],
      static_files = [''index.html'' \<mapsto> ''<html></html>'', ''style.css'' \<mapsto> ''body {}''],
      index_html = Some ''<html></html>'',
      can_spawn = (\<lambda>cmd. True),
      folder_content = (\<lambda>p. Inr ''{}''),
      float_of_str =
        (\<lambda>t. if t \<noteq> [] \<and> (\<forall>c \<in> set t. c \<in> set ''0123456789'') then Some (t @ ''.0'')
             else None),
      float_of_int = (\<lambda>i. None),
      float_repr = (\<lambda>x. x),
      unquote = percent_decode\<rparr>"

text \<open>A running player with nothing buffered, as \<open>Popen\<close> returns it.\<close>

definition fresh_proc :: "string list \<Rightarrow> proc" where
  "fresh_proc cmd = \<lparr>argv = cmd, alive = True, reader_open = True, pending = [], history = []\<rparr>"


text \<open>The state after a first play request: one running player, nothing logged.\<close>

definition running_state :: state where
  "running_state =
     \<lparr>mpv_process = Some (fresh_proc [''mpv'', ''--'', ''/media/a.mkv'']),
      discarded = [], printed = [], opened = []\<rparr>"

text \<open>
  Sample requests, without an Authorization header, and the state in which the player of
  \<open>running_state\<close> has left on its own.
\<close>

definition control_request :: "string \<Rightarrow> string json \<Rightarrow> string request" where
  "control_request nm v =
     \<lparr>path = ''/control'', authorization = None, content_length = Some 0,
      body_json = Some (JObj [(''command'', JStr nm), (''val'', v)])\<rparr>"

definition play_request :: "string list \<Rightarrow> string request" where
  "play_request segments =
     \<lparr>path = ''/play'', authorization = None, content_length = Some 0,
      body_json = Some (JArr (map JStr segments))\<rparr>"

definition stale_state :: state where
  "stale_state = running_state\<lparr>mpv_process := map_option proc_exits (mpv_process running_state)\<rparr>"

text \<open>
  The parsing rule for global flags in the words of the specification: each line is cut
  at its first \<open>#\<close>, trimmed, skipped when nothing is left, and prefixed with \<open>--\<close>.
\<close>

definition global_flags_spec :: "string \<Rightarrow> string list" where
  "global_flags_spec text =
     map (\<lambda>t. ''--'' @ t)
       (filter (\<lambda>t. t \<noteq> [])
          (map (\<lambda>ln. strip (split1_head (CHR ''#'') ln)) (splitlines text)))"

text \<open>
  A line that does not consist of white space only and in which no white space stands
  directly before the comment sign.
\<close>

definition plain_line :: "string \<Rightarrow> bool" where
  "plain_line line =
     ((line = [] \<or> strip line \<noteq> [])
      \<and> (split1_head (CHR ''#'') (strip line) = []
           \<or> \<not> is_space (last (split1_head (CHR ''#'') (strip line)))))"

text \<open>
  The allow-list in the words of the specification: the id and language options of the
  audio, subtitle and video tracks, also with the prefix \<open>secondary-\<close>, and the two
  delay options, each followed by \<open>=\<close> and a non-empty value of digits, lower-case
  letters, dots and hyphens.
\<close>

definition allowed_names :: "string list" where
  "allowed_names =
     [''aid'', ''sid'', ''vid'', ''alang'', ''slang'', ''vlang'',
      ''secondary-aid'', ''secondary-sid'', ''secondary-vid'',
      ''secondary-alang'', ''secondary-slang'', ''secondary-vlang'',
      ''sub-delay'', ''audio-delay'']"

definition allow_listed :: "string \<Rightarrow> bool" where
  "allow_listed c =
     (let nm = split1_head (CHR ''='') c; v = drop (Suc (length nm)) c
      in nm \<in> set allowed_names \<and> CHR ''='' \<in> set c
         \<and> v \<noteq> [] \<and> (\<forall>x \<in> set v. x \<in> set value_chars))"

text \<open>The words a regular expression matches as a whole, by the structure of the expression.\<close>

inductive_set star :: "string set \<Rightarrow> string set" for A :: "string set" where
  star_empty: "[] \<in> star A"
| star_step: "u \<in> A \<Longrightarrow> v \<in> star A \<Longrightarrow> u @ v \<in> star A"

fun lang :: "rx \<Rightarrow> string set" where
  "lang Nomatch = {}"
| "lang Eps = {[]}"
| "lang (Chr c) = {[c]}"
| "lang (Cls cs) = (\<lambda>c. [c]) ` set cs"
| "lang (Seq r s) = {u @ v | u v. u \<in> lang r \<and> v \<in> lang s}"
| "lang (Alt r s) = lang r \<union> lang s"
| "lang (Star r) = star (lang r)"

text \<open>
  The order of the listing in the words of the specification: a directory before a
  file, of two directories the one modified later first, of two files the one whose
  lower-cased path is smaller first.
\<close>

definition listing_order :: "entry \<Rightarrow> entry \<Rightarrow> bool" where
  "listing_order a b =
     ((is_dir a \<or> \<not> is_dir b)
      \<and> (is_dir a \<and> is_dir b \<longrightarrow> st_mtime b \<le> st_mtime a)
      \<and> (\<not> is_dir a \<and> \<not> is_dir b \<longrightarrow> lower (full a) \<le> lower (full b)))"

text \<open>A directory with two sub-directories, three files, a hidden file and a broken link.\<close>

definition sample_items :: "entry list" where
  "sample_items =
     [\<lparr>name = ''b.txt'', full = ''/media/b.txt'', kind = File, st_mtime = 50\<rparr>,
      \<lparr>name = ''old'', full = ''/media/old'', kind = Dir, st_mtime = 10\<rparr>,
      \<lparr>name = ''.hidden'', full = ''/media/.hidden'', kind = File, st_mtime = 70\<rparr>,
      \<lparr>name = ''A.mkv'', full = ''/media/A.mkv'', kind = File, st_mtime = 20\<rparr>,
      \<lparr>name = ''gone'', full = ''/media/gone'', kind = Broken, st_mtime = 0\<rparr>,
      \<lparr>name = ''new'', full = ''/media/new'', kind = Dir, st_mtime = 30\<rparr>,
      \<lparr>name = ''Zed.avi'', full = ''/media/Zed.avi'', kind = File, st_mtime = 5\<rparr>]"

text \<open>A running player that has closed its standard input.\<close>

definition deaf_state :: state where
  "deaf_state =
     \<lparr>mpv_process = Some ((fresh_proc [''mpv'', ''--'', ''/media/a.mkv''])\<lparr>reader_open := False\<rparr>),
      discarded = [], printed = [], opened = []\<rparr>"

section \<open>The argument list of the player\<close>

text \<open>
  Claim C9, as amended. Whenever the global options can be read and the operating system
  starts the player, \<open>play_file\<close> of server-rewrite.py returns normally and the new
  process was started with the executable, the three fixed options
  \<open>--input-terminal=no\<close>, \<open>--input-file=/dev/stdin\<close> and \<open>--fs\<close>, then the global
  flags, then the allow-listed override flags of the target's directory, then \<open>--\<close> and
  the target, in this order.
\<close>

theorem play_file_argv:
  assumes "mpv_config (mpv_conf env) = Inr g"
    and "can_spawn env (play_cmd g (folder_config (files env) fpath) fpath)"
  shows "\<exists>s'. play_file env s fpath = (Inr (), s') \<and>
           map_option argv (mpv_process s') =
             Some ([mpv_executable, ''--input-terminal=no'', ''--input-file=/dev/stdin'', ''--fs'']
                   @ g @ folder_config (files env) fpath @ [''--'', fpath])"
  using assms
  by (simp add: play_file_def popen_def store_handle_def play_cmd_def log_error_def
      split: prod.splits option.splits)

theorem play_file_argv_witness:
  "\<exists>s'. play_file sample_env initial_state ''/media/a.mkv'' = (Inr (), s') \<and>
      map_option argv (mpv_process s') =
        Some [''mpv'', ''--input-terminal=no'', ''--input-file=/dev/stdin'', ''--fs'',
              ''--fullscreen'', ''--volume=50'', ''--sid=2'', ''--sub-delay=-0.5'',
              ''--'', ''/media/a.mkv'']"
proof -
  have g: "mpv_config (mpv_conf sample_env) = Inr [''--fullscreen'', ''--volume=50'']"
    by code_simp
  have f: "folder_config (files sample_env) ''/media/a.mkv'' = [''--sid=2'', ''--sub-delay=-0.5'']"
    by code_simp
  have c: "can_spawn sample_env
             (play_cmd [''--fullscreen'', ''--volume=50'']
                (folder_config (files sample_env) ''/media/a.mkv'') ''/media/a.mkv'')"
    by (simp add: sample_env_def)
  show ?thesis
    using play_file_argv [OF g c, of initial_state] by (simp add: f mpv_executable_def)
qed

text \<open>
  The claim as it stands fails: in the sample installation the options after the
  executable are not the global flags followed by the override flags, \<open>--\<close> and the
  target, since the three fixed options come first.
\<close>

theorem play_file_argv_counterexample:
  "mpv_config (mpv_conf sample_env) = Inr [''--fullscreen'', ''--volume=50'']
   \<and> folder_config (files sample_env) ''/media/a.mkv'' = [''--sid=2'', ''--sub-delay=-0.5'']
   \<and> map_option (\<lambda>p. tl (argv p))
        (mpv_process (snd (play_file sample_env initial_state ''/media/a.mkv'')))
      \<noteq> Some ([''--fullscreen'', ''--volume=50''] @ [''--sid=2'', ''--sub-delay=-0.5'']
               @ [''--'', ''/media/a.mkv''])
   \<and> map_option (\<lambda>p. tl (argv p))
        (mpv_process (snd (play_file sample_env initial_state ''/media/a.mkv'')))
      = Some ([''--input-terminal=no'', ''--input-file=/dev/stdin'', ''--fs'']
              @ [''--fullscreen'', ''--volume=50''] @ [''--sid=2'', ''--sub-delay=-0.5'']
              @ [''--'', ''/media/a.mkv''])"
  by code_simp


section \<open>Requests with an empty list of path segments\<close>

text \<open>
  Claim C10. A POST request to \<open>/play\<close> or \<open>/dir\<close> that has passed the login check and
  whose body is the empty JSON array makes \<open>os.path.join\<close> raise a TypeError; the
  request is answered with the not-found response whose body is the text of that
  exception, and the state of the server, the player session included, is the one before
  the request.
\<close>

theorem empty_segments_not_found:
  assumes "login (login_file env) (authorization req)"
    and "content_length req = Some n"
    and "path req = ''/play'' \<or> path req = ''/dir''"
    and "body_json req = Some (JArr [])"
  shows "join_segments (JArr [] :: 'f json) = Inl TypeError
         \<and> do_POST env s (req :: 'f request) = (Responded (respond_notfound (ErrText TypeError)), s)"
  using assms
  by (auto simp add: do_POST_def post_play_def post_dir_def or_notfound_def
      join_segments_def os_path_join_def)

theorem empty_segments_not_found_witness:
  "do_POST sample_env
     \<lparr>mpv_process = Some (fresh_proc [''mpv'', ''--'', ''/media/a.mkv'']),
      discarded = [], printed = [], opened = []\<rparr>
     \<lparr>path = ''/play'', authorization = None, content_length = Some 2,
      body_json = Some (JArr [])\<rparr>
   = (Responded \<lparr>status = 404, www_authenticate = None, cache_max_age = None,
                  content_type = Some ''text/plain'', body = ErrText TypeError\<rparr>,
      \<lparr>mpv_process = Some (fresh_proc [''mpv'', ''--'', ''/media/a.mkv'']),
       discarded = [], printed = [], opened = []\<rparr>)"
  using empty_segments_not_found [of sample_env
     "\<lparr>path = ''/play'', authorization = None, content_length = Some 2,
      body_json = Some (JArr [])\<rparr>" 2
     "\<lparr>mpv_process = Some (fresh_proc [''mpv'', ''--'', ''/media/a.mkv'']),
      discarded = [], printed = [], opened = []\<rparr>"]
  by (simp add: sample_env_def login_def respond_notfound_def)

section \<open>The login check\<close>

lemma ask_auth_not_ok [simp]: "respond_ok d c a \<noteq> ask_auth" "respond_notfound b \<noteq> ask_auth"
  by (simp_all add: respond_ok_def respond_notfound_def ask_auth_def)

lemma serve_static_not_auth: "fst (serve_static env s p) \<noteq> Inr ask_auth"
  by (simp add: serve_static_def Let_def split: option.splits)

lemma post_dir_not_auth: "fst (post_dir env s b) \<noteq> Inr ask_auth"
  by (simp add: post_dir_def split: option.splits sum.splits)

lemma post_play_not_auth: "fst (post_play env s b) \<noteq> Inr ask_auth"
  by (simp add: post_play_def split: option.splits sum.splits prod.splits)

lemma post_control_not_auth: "fst (post_control env s b) \<noteq> Inr ask_auth"
  by (simp add: post_control_def split: option.splits sum.splits prod.splits)

lemma or_notfound_not_auth:
  "fst r \<noteq> Inr ask_auth \<Longrightarrow> fst (or_notfound r) \<noteq> Responded ask_auth"
  by (cases r) (auto simp add: or_notfound_def split: sum.splits)

lemma do_POST_auth:
  "fst (do_POST env s req) = Responded ask_auth \<longleftrightarrow> \<not> login (login_file env) (authorization req)"
  by (simp add: do_POST_def or_notfound_not_auth post_dir_not_auth post_play_not_auth
      post_control_not_auth split: option.splits)

lemma do_GET_auth:
  "fst (do_GET env s req) = Responded ask_auth \<longleftrightarrow> \<not> login (login_file env) (authorization req)"
  using serve_static_not_auth [of env s "path req"]
  by (auto simp add: do_GET_def split: option.splits prod.splits sum.splits)

text \<open>
  Claim C6. With a login file, \<open>do_GET\<close> and \<open>do_POST\<close> go on to handle a request
  exactly when its Authorization header is \<open>Basic\<close>, a space, and the base64 encoding of
  the stripped content of the file; any other header, or none, is answered with the 401
  response that carries the \<open>WWW-Authenticate\<close> challenge, and nothing else happens.
  Without a login file no request is answered with that response.
\<close>

theorem basic_auth_check:
  "(login_file env = Some raw \<longrightarrow>
      (fst (do_GET env s req) \<noteq> Responded ask_auth
         \<longleftrightarrow> authorization req = Some (''Basic '' @ standard_b64encode (bytes_strip raw)))
    \<and> (fst (do_POST env s req) \<noteq> Responded ask_auth
         \<longleftrightarrow> authorization req = Some (''Basic '' @ standard_b64encode (bytes_strip raw)))
    \<and> (authorization req \<noteq> Some (''Basic '' @ standard_b64encode (bytes_strip raw)) \<longrightarrow>
         do_GET env s req = (Responded ask_auth, s) \<and> do_POST env s req = (Responded ask_auth, s)))
   \<and> (login_file env = None \<longrightarrow>
        fst (do_GET env s req) \<noteq> Responded ask_auth \<and> fst (do_POST env s req) \<noteq> Responded ask_auth)
   \<and> status ask_auth = 401 \<and> www_authenticate ask_auth = Some ''Basic realm=\"mpv-remote\"''"
  apply (simp only: do_POST_auth do_GET_auth)
  apply (auto simp add: login_def do_GET_def do_POST_def ask_auth_def)
  done

theorem basic_auth_check_witness:
  "fst (do_POST (sample_env\<lparr>login_file := Some ''user:pass\<newline>''\<rparr>) initial_state
          \<lparr>path = ''/control'', authorization = Some ''Basic dXNlcjpwYXNz'',
           content_length = Some 2, body_json = Some (JObj [])\<rparr>) \<noteq> Responded ask_auth
   \<and> do_GET (sample_env\<lparr>login_file := Some ''user:pass\<newline>''\<rparr>) initial_state
          \<lparr>path = ''/'', authorization = None,
           content_length = None, body_json = None\<rparr> = (Responded ask_auth, initial_state)
   \<and> fst (do_GET sample_env initial_state
          \<lparr>path = ''/'', authorization = None,
           content_length = None, body_json = None\<rparr>) \<noteq> Responded ask_auth"
proof -
  have b: "standard_b64encode (bytes_strip ''user:pass\<newline>'') = ''dXNlcjpwYXNz''"
    by code_simp
  have n: "login_file sample_env = None"
    by (simp add: sample_env_def)
  show ?thesis
    using basic_auth_check [of "sample_env\<lparr>login_file := Some ''user:pass\<newline>''\<rparr>"
        "''user:pass\<newline>''" initial_state
        "\<lparr>path = ''/control'', authorization = Some ''Basic dXNlcjpwYXNz'',
          content_length = Some 2, body_json = Some (JObj [])\<rparr>"]
      basic_auth_check [of "sample_env\<lparr>login_file := Some ''user:pass\<newline>''\<rparr>"
        "''user:pass\<newline>''" initial_state
        "\<lparr>path = ''/'', authorization = None, content_length = None, body_json = None\<rparr>"]
      basic_auth_check [of sample_env "[]" initial_state
        "\<lparr>path = ''/'', authorization = None, content_length = None, body_json = None\<rparr>"]
    by (simp add: b n)
qed

section \<open>Static files\<close>

text \<open>
  Claim C7. In both servers \<open>serve_static\<close> looks the unquoted name up in the listing
  of the static directory; a name that is not in the listing is answered with the
  not-found response \<open>file not found\<close>, and no file is opened, whatever the file system
  would make of the name.
\<close>

theorem static_name_checked_against_listing:
  assumes "static_listing env = Some names"
    and "unquote env (drop (length ''/static/'') request_path) \<notin> set names"
  shows "serve_static env s request_path
           = (Inr (respond_notfound (Bytes ''file not found'')), s)
         \<and> legacy_serve_static env s request_path
           = (Inr (respond_notfound (Bytes ''file not found'')), s)
         \<and> opened (snd (serve_static env s request_path)) = opened s
         \<and> opened (snd (legacy_serve_static env s request_path)) = opened s"
  using assms by (simp add: serve_static_def legacy_serve_static_def)

theorem static_name_checked_against_listing_witness:
  "serve_static (sample_env\<lparr>static_files := [''../secret'' \<mapsto> ''key'']\<rparr>) initial_state
     ''/static/%2e%2e/secret''
   = (Inr \<lparr>status = 404, www_authenticate = None, cache_max_age = None,
           content_type = Some ''text/plain'', body = Bytes ''file not found''\<rparr>,
      initial_state)
   \<and> opened (snd (legacy_serve_static (sample_env\<lparr>static_files := [''../secret'' \<mapsto> ''key'']\<rparr>)
        initial_state ''/static/%2e%2e/secret'')) = []"
proof -
  have l: "static_listing (sample_env\<lparr>static_files := [''../secret'' \<mapsto> ''key'']\<rparr>)
             = Some [''index.html'', ''style.css'']"
    by (simp add: sample_env_def)
  have d: "percent_decode ''%2e%2e/secret'' = ''../secret''"
    by code_simp
  have u: "unquote (sample_env\<lparr>static_files := [''../secret'' \<mapsto> ''key'']\<rparr>)
             (drop (length ''/static/'') ''/static/%2e%2e/secret'')
           \<notin> set [''index.html'', ''style.css'']"
    by (simp add: sample_env_def d del: percent_decode.simps)
  show ?thesis
    using static_name_checked_against_listing [OF l u, of initial_state]
    by (simp add: respond_notfound_def initial_state_def)
qed

section \<open>Replacing the player\<close>

text \<open>
  What the two \<open>try\<close> blocks leave behind the handle: in server-rewrite.py a player
  that is still running exactly when it was running with its standard input closed, in
  server.py a player that is not running.
\<close>

lemma quit_old_running:
  "alive p \<Longrightarrow> reader_open p \<Longrightarrow>
   quit_old (Some p) =
     (None, Some (p\<lparr>alive := False, reader_open := False, pending := [],
                    history := history p @ [Delivered (pending p @ ''quit\<newline>''), SigKill]\<rparr>))"
  by (simp add: quit_old_def stdin_flush_def stdin_write_def kill_def)

lemma quit_old_handle:
  "\<exists>q. snd (quit_old (Some p)) = Some q \<and> (alive q \<longleftrightarrow> alive p \<and> \<not> reader_open p)"
  by (simp add: quit_old_def stdin_flush_def stdin_write_def kill_def)

lemma legacy_quit_old_handle:
  "legacy_quit_old (Some p) = (None, Some (kill (stdin_write p ''quit\<newline>'')))
   \<and> \<not> alive (kill (stdin_write p ''quit\<newline>''))
   \<and> (alive p \<longrightarrow> history (kill (stdin_write p ''quit\<newline>'')) = history p @ [SigKill])"
  by (simp add: legacy_quit_old_def stdin_write_def kill_def)

lemma live_store_handle:
  "live (store_handle (fresh_proc cmd) (log_error e (s\<lparr>mpv_process := Some q\<rparr>)))
     = filter alive (discarded s) @ (if alive q then [q] else []) @ [fresh_proc cmd]"
  by (simp add: live_def store_handle_def fresh_proc_def log_error_def split: option.splits)

lemma play_file_replaces:
  assumes "mpv_process s = Some p"
    and "mpv_config (mpv_conf env) = Inr g"
    and "can_spawn env (play_cmd g (folder_config (files env) fpath) fpath)"
    and "snd (quit_old (Some p)) = Some q"
  shows "play_file env s fpath
           = (Inr (), store_handle (fresh_proc (play_cmd g (folder_config (files env) fpath) fpath))
                        (log_error (fst (quit_old (Some p))) (s\<lparr>mpv_process := Some q\<rparr>)))"
  using assms
  by (cases "quit_old (Some p)") (simp add: play_file_def popen_def fresh_proc_def)

lemma legacy_play_file_replaces:
  assumes "mpv_process s = Some p"
    and "can_spawn env ([mpv_executable, ''--input-terminal=no'', ''--input-file=/dev/stdin'']
                         @ config @ [''--'', fpath])"
  shows "legacy_play_file env config s fpath
           = (Inr (), store_handle (fresh_proc ([mpv_executable, ''--input-terminal=no'',
                                                  ''--input-file=/dev/stdin'']
                                                 @ config @ [''--'', fpath]))
                        (log_error None (s\<lparr>mpv_process := Some (kill (stdin_write p ''quit\<newline>''))\<rparr>)))"
  using assms
  by (simp add: legacy_play_file_def legacy_quit_old_handle popen_def fresh_proc_def log_error_def)

text \<open>
  Claim C1, as amended. Let a play request arrive while a session exists, and let the
  new player be startable (the global options are readable and the spawn succeeds). The
  call returns and the handle names the new player. In server-rewrite.py, unless the old
  player is running with its control stream closed, the live players afterwards are the
  earlier players that were still running before the call and the new one: exactly one,
  the new one, when there was none; and an old player that was running with its control
  stream open has received what was buffered followed by \<open>quit\<close>, and after that the
  kill signal. In server.py the live players afterwards are the earlier players that were
  still running and the new one, exactly one when there was none, the old player is not
  running, and if it was running it has been killed.
\<close>

theorem replace_running_player:
  assumes "mpv_process s = Some p"
    and "mpv_config (mpv_conf env) = Inr g"
    and "can_spawn env (play_cmd g (folder_config (files env) fpath) fpath)"
    and "can_spawn env ([mpv_executable, ''--input-terminal=no'', ''--input-file=/dev/stdin'']
                         @ config @ [''--'', fpath])"
  shows "(\<exists>s'. play_file env s fpath = (Inr (), s')
           \<and> mpv_process s' = Some (fresh_proc (play_cmd g (folder_config (files env) fpath) fpath))
           \<and> (reader_open p \<or> \<not> alive p \<longrightarrow>
                live s' = filter alive (discarded s)
                          @ [fresh_proc (play_cmd g (folder_config (files env) fpath) fpath)])
           \<and> ((reader_open p \<or> \<not> alive p) \<and> (\<forall>q \<in> set (discarded s). \<not> alive q) \<longrightarrow>
                live s' = [fresh_proc (play_cmd g (folder_config (files env) fpath) fpath)])
           \<and> (alive p \<and> reader_open p \<longrightarrow>
                discarded s' = discarded s @
                   [p\<lparr>alive := False, reader_open := False, pending := [],
                      history := history p @ [Delivered (pending p @ ''quit\<newline>''), SigKill]\<rparr>]))
         \<and> (\<exists>s' p'. legacy_play_file env config s fpath = (Inr (), s')
           \<and> mpv_process s' = Some (fresh_proc ([mpv_executable, ''--input-terminal=no'',
                                                   ''--input-file=/dev/stdin'']
                                                  @ config @ [''--'', fpath]))
           \<and> live s' = filter alive (discarded s)
                        @ [fresh_proc ([mpv_executable, ''--input-terminal=no'',
                                        ''--input-file=/dev/stdin''] @ config @ [''--'', fpath])]
           \<and> ((\<forall>q \<in> set (discarded s). \<not> alive q) \<longrightarrow>
                live s' = [fresh_proc ([mpv_executable, ''--input-terminal=no'',
                                        ''--input-file=/dev/stdin''] @ config @ [''--'', fpath])])
           \<and> discarded s' = discarded s @ [p'] \<and> \<not> alive p'
           \<and> (alive p \<longrightarrow> history p' = history p @ [SigKill]))"
proof (rule conjI)
  let ?new = "fresh_proc (play_cmd g (folder_config (files env) fpath) fpath)"
  obtain q where q: "snd (quit_old (Some p)) = Some q"
    and aq: "alive q \<longleftrightarrow> alive p \<and> \<not> reader_open p"
    using quit_old_handle by blast
  let ?s' = "store_handle ?new (log_error (fst (quit_old (Some p))) (s\<lparr>mpv_process := Some q\<rparr>))"
  have run: "play_file env s fpath = (Inr (), ?s')"
    using assms(1-3) q by (rule play_file_replaces)
  have h: "mpv_process ?s' = Some ?new"
    by (simp add: store_handle_def)
  have l: "reader_open p \<or> \<not> alive p \<Longrightarrow> live ?s' = filter alive (discarded s) @ [?new]"
    using aq by (auto simp add: live_store_handle)
  have l1: "(reader_open p \<or> \<not> alive p) \<and> (\<forall>q \<in> set (discarded s). \<not> alive q) \<Longrightarrow> live ?s' = [?new]"
    using l by (simp add: filter_empty_conv)
  have d: "alive p \<and> reader_open p \<Longrightarrow>
           discarded ?s' = discarded s @
                   [p\<lparr>alive := False, reader_open := False, pending := [],
                      history := history p @ [Delivered (pending p @ ''quit\<newline>''), SigKill]\<rparr>]"
    using q by (simp add: quit_old_running store_handle_def log_error_def)
  show "\<exists>s'. play_file env s fpath = (Inr (), s')
           \<and> mpv_process s' = Some ?new
           \<and> (reader_open p \<or> \<not> alive p \<longrightarrow> live s' = filter alive (discarded s) @ [?new])
           \<and> ((reader_open p \<or> \<not> alive p) \<and> (\<forall>q \<in> set (discarded s). \<not> alive q) \<longrightarrow>
                live s' = [?new])
           \<and> (alive p \<and> reader_open p \<longrightarrow>
                discarded s' = discarded s @
                   [p\<lparr>alive := False, reader_open := False, pending := [],
                      history := history p @ [Delivered (pending p @ ''quit\<newline>''), SigKill]\<rparr>])"
    using run h l l1 d by blast
next
  let ?new = "fresh_proc ([mpv_executable, ''--input-terminal=no'', ''--input-file=/dev/stdin'']
                          @ config @ [''--'', fpath])"
  let ?q = "kill (stdin_write p ''quit\<newline>'')"
  let ?s' = "store_handle ?new (log_error None (s\<lparr>mpv_process := Some ?q\<rparr>))"
  have run: "legacy_play_file env config s fpath = (Inr (), ?s')"
    using assms(1) assms(4) by (rule legacy_play_file_replaces)
  have dead: "\<not> alive ?q" and hist: "alive p \<longrightarrow> history ?q = history p @ [SigKill]"
    using legacy_quit_old_handle [of p] by simp_all
  have h: "mpv_process ?s' = Some ?new"
    by (simp add: store_handle_def)
  have l: "live ?s' = filter alive (discarded s) @ [?new]"
    using dead by (simp add: live_store_handle)
  have l1: "(\<forall>q \<in> set (discarded s). \<not> alive q) \<longrightarrow> live ?s' = [?new]"
    using l by (simp add: filter_empty_conv)
  have d: "discarded ?s' = discarded s @ [?q]"
    by (simp add: store_handle_def log_error_def)
  show "\<exists>s' p'. legacy_play_file env config s fpath = (Inr (), s')
           \<and> mpv_process s' = Some ?new
           \<and> live s' = filter alive (discarded s) @ [?new]
           \<and> ((\<forall>q \<in> set (discarded s). \<not> alive q) \<longrightarrow> live s' = [?new])
           \<and> discarded s' = discarded s @ [p'] \<and> \<not> alive p'
           \<and> (alive p \<longrightarrow> history p' = history p @ [SigKill])"
    using run h l l1 d dead hist by blast
qed

theorem replace_running_player_witness:
  "(\<exists>s'. play_file sample_env running_state ''/media/b.mkv'' = (Inr (), s')
      \<and> live s' = [fresh_proc
            [''mpv'', ''--input-terminal=no'', ''--input-file=/dev/stdin'', ''--fs'',
             ''--fullscreen'', ''--volume=50'', ''--sid=2'', ''--sub-delay=-0.5'',
             ''--'', ''/media/b.mkv'']]
      \<and> discarded s' = [\<lparr>argv = [''mpv'', ''--'', ''/media/a.mkv''], alive = False,
                          reader_open = False, pending = [],
                          history = [Delivered ''quit\<newline>'', SigKill]\<rparr>])
   \<and> (\<exists>s' p'. legacy_play_file sample_env [''--volume=50''] running_state ''/media/b.mkv''
                 = (Inr (), s')
      \<and> live s' = [fresh_proc
            [''mpv'', ''--input-terminal=no'', ''--input-file=/dev/stdin'',
             ''--volume=50'', ''--'', ''/media/b.mkv'']]
      \<and> discarded s' = [p'] \<and> \<not> alive p' \<and> history p' = [SigKill])"
proof -
  have g: "mpv_config (mpv_conf sample_env) = Inr [''--fullscreen'', ''--volume=50'']"
    by code_simp
  have f: "folder_config (files sample_env) ''/media/b.mkv'' = [''--sid=2'', ''--sub-delay=-0.5'']"
    by code_simp
  have c: "can_spawn sample_env cmd" for cmd
    by (simp add: sample_env_def)
  have h: "mpv_process running_state = Some (fresh_proc [''mpv'', ''--'', ''/media/a.mkv''])"
    by (simp add: running_state_def)
  have r: "alive (fresh_proc [''mpv'', ''--'', ''/media/a.mkv''])"
          "reader_open (fresh_proc [''mpv'', ''--'', ''/media/a.mkv''])"
          "history (fresh_proc [''mpv'', ''--'', ''/media/a.mkv'']) = []"
          "pending (fresh_proc [''mpv'', ''--'', ''/media/a.mkv'']) = []"
          "discarded running_state = []"
    by (simp_all add: fresh_proc_def running_state_def)
  have q: "fresh_proc [''mpv'', ''--'', ''/media/a.mkv'']
             \<lparr>alive := False, reader_open := False, pending := [],
              history := [Delivered ''quit\<newline>'', SigKill]\<rparr>
           = \<lparr>argv = [''mpv'', ''--'', ''/media/a.mkv''], alive = False,
              reader_open = False, pending = [],
              history = [Delivered ''quit\<newline>'', SigKill]\<rparr>"
    by (simp add: fresh_proc_def)
  show ?thesis
    using replace_running_player [OF h g c c, of "''/media/b.mkv''" "[''--volume=50'']"]
    apply (simp add: f r q play_cmd_def mpv_executable_def)
    apply blast
    done
qed

text \<open>
  The claim as it stands fails. When the global options cannot be read the old player is
  told to quit and killed, and no player is started: none is live afterwards. When the
  old player has already left, the write to its control stream fails and it has received
  neither the directive nor the signal. When the old player is running with its standard
  input closed, the failed write skips the kill and two players are live afterwards; the
  first of them is still running at the next play request, which ends with two live
  players again although the player it replaces is running with its control stream open.
\<close>

theorem replace_running_player_counterexample:
  "mpv_process running_state \<noteq> None
   \<and> live running_state = [fresh_proc [''mpv'', ''--'', ''/media/a.mkv'']]
   \<and> live (snd (play_file (sample_env\<lparr>mpv_conf := None\<rparr>) running_state ''/media/b.mkv'')) = []
   \<and> map history (discarded (snd (play_file sample_env stale_state ''/media/b.mkv''))) = [[]]
   \<and> length (live deaf_state) = 1
   \<and> length (live (snd (play_file sample_env deaf_state ''/media/b.mkv''))) = 2
   \<and> map_option (\<lambda>p. alive p \<and> reader_open p)
        (mpv_process (snd (play_file sample_env deaf_state ''/media/b.mkv''))) = Some True
   \<and> length (live (snd (play_file sample_env
                (snd (play_file sample_env deaf_state ''/media/b.mkv'')) ''/media/c.mkv''))) = 2"
  by code_simp

section \<open>Failures of the player and the response\<close>

lemma quit_old_no_session: "quit_old None = (Some AttributeError, None)"
  by (simp add: quit_old_def)

lemma quit_old_broken_pipe:
  "\<not> reader_open p \<Longrightarrow> quit_old (Some p) = (Some BrokenPipeError, Some (stdin_write p ''quit\<newline>''))"
  by (simp add: quit_old_def stdin_flush_def stdin_write_def)

lemma send_control_no_session: "send_control env None c x = (Some AttributeError, None)"
  by (simp add: send_control_def)

lemma send_control_broken_pipe:
  "\<not> reader_open p \<Longrightarrow> fst (send_control env (Some p) c x) \<noteq> None"
  by (simp add: send_control_def stdin_flush_def stdin_write_def split: sum.splits)

lemma post_control_ok:
  assumes "json_get j ''command'' = Inr c" and "json_get j ''val'' = Inr v"
    and "sanitize env c v = Inr (c', x)"
  shows "post_control env s (Some j) =
           (Inr (respond_ok [] html_utf8 0),
            log_error (fst (send_control env (mpv_process s) c' x))
              (s\<lparr>mpv_process := snd (send_control env (mpv_process s) c' x)\<rparr>))"
  using assms by (simp add: post_control_def control_mpv_def split: prod.splits)

lemma printed_log_error [simp]:
  "printed (log_error e s) = printed s @ (case e of None \<Rightarrow> [] | Some x \<Rightarrow> [x])"
  by (simp add: log_error_def split: option.splits)

lemma play_file_started:
  assumes "mpv_config (mpv_conf env) = Inr g"
    and "can_spawn env (play_cmd g (folder_config (files env) fpath) fpath)"
  shows "fst (play_file env s fpath) = Inr ()"
    and "printed (snd (play_file env s fpath)) = printed (log_error (fst (quit_old (mpv_process s))) s)"
  using assms
  by (simp_all add: play_file_def popen_def store_handle_def Let_def split: prod.splits)

lemma play_file_not_started:
  assumes "mpv_config (mpv_conf env) = Inr g"
    and "\<not> can_spawn env (play_cmd g (folder_config (files env) fpath) fpath)"
  shows "fst (play_file env s fpath) = Inl OSError"
  using assms
  by (simp add: play_file_def popen_def split: prod.splits)

text \<open>
  Claim C3, as amended. For a POST request that has passed the login check: a control
  request whose value \<open>sanitize\<close> accepts is answered with the empty success response
  whatever the session is, and the exception of the write, if any, is logged (a missing
  session and a broken pipe both raise one); a play request whose new player starts is
  answered with the empty success response, and the exception of the quit directive to
  the old session, if any, is logged; a play request whose new player cannot be started
  is answered with the not-found response that carries the text of the exception.
\<close>

theorem control_stream_failures_swallowed:
  assumes "login (login_file env) (authorization req)"
    and "content_length req = Some n"
    and "body_json req = Some j"
  shows "(path req = ''/control'' \<and> json_get j ''command'' = Inr c \<and> json_get j ''val'' = Inr v
            \<and> sanitize env c v = Inr (c', x) \<longrightarrow>
          fst (do_POST env s req) = Responded (respond_ok [] html_utf8 0)
          \<and> printed (snd (do_POST env s req))
              = printed s @ (case fst (send_control env (mpv_process s) c' x) of
                               None \<Rightarrow> [] | Some e \<Rightarrow> [e])
          \<and> (mpv_process s = None \<longrightarrow>
                fst (send_control env (mpv_process s) c' x) = Some AttributeError)
          \<and> (\<forall>p. mpv_process s = Some p \<and> \<not> reader_open p \<longrightarrow>
                fst (send_control env (mpv_process s) c' x) \<noteq> None))
       \<and> (path req = ''/play'' \<and> join_segments j = Inr fpath \<and> mpv_config (mpv_conf env) = Inr g \<longrightarrow>
            (if can_spawn env (play_cmd g (folder_config (files env) fpath) fpath)
             then fst (do_POST env s req) = Responded (respond_ok [] html_utf8 0)
                  \<and> printed (snd (do_POST env s req))
                      = printed s @ (case fst (quit_old (mpv_process s)) of
                                       None \<Rightarrow> [] | Some e \<Rightarrow> [e])
                  \<and> (mpv_process s = None \<longrightarrow>
                        fst (quit_old (mpv_process s)) = Some AttributeError)
                  \<and> (\<forall>p. mpv_process s = Some p \<and> \<not> reader_open p \<longrightarrow>
                        fst (quit_old (mpv_process s)) = Some BrokenPipeError)
             else fst (do_POST env s req) = Responded (respond_notfound (ErrText OSError))))"
proof (intro conjI impI)
  assume a: "path req = ''/control'' \<and> json_get j ''command'' = Inr c \<and> json_get j ''val'' = Inr v
            \<and> sanitize env c v = Inr (c', x)"
  then have pc: "post_control env s (Some j) =
           (Inr (respond_ok [] html_utf8 0),
            log_error (fst (send_control env (mpv_process s) c' x))
              (s\<lparr>mpv_process := snd (send_control env (mpv_process s) c' x)\<rparr>))"
    by (simp add: post_control_ok)
  have d: "do_POST env s req = or_notfound (post_control env s (Some j))"
    using assms a by (simp add: do_POST_def)
  show "fst (do_POST env s req) = Responded (respond_ok [] html_utf8 0)"
    by (simp add: d pc or_notfound_def)
  show "printed (snd (do_POST env s req))
              = printed s @ (case fst (send_control env (mpv_process s) c' x) of
                               None \<Rightarrow> [] | Some e \<Rightarrow> [e])"
    by (simp add: d pc or_notfound_def)
  show "mpv_process s = None \<Longrightarrow> fst (send_control env (mpv_process s) c' x) = Some AttributeError"
    by (simp add: send_control_no_session)
  show "\<forall>p. mpv_process s = Some p \<and> \<not> reader_open p \<longrightarrow>
                fst (send_control env (mpv_process s) c' x) \<noteq> None"
    using send_control_broken_pipe by auto
next
  assume a: "path req = ''/play'' \<and> join_segments j = Inr fpath \<and> mpv_config (mpv_conf env) = Inr g"
  have d: "do_POST env s req = or_notfound (post_play env s (Some j))"
    using assms a by (simp add: do_POST_def)
  show "if can_spawn env (play_cmd g (folder_config (files env) fpath) fpath)
             then fst (do_POST env s req) = Responded (respond_ok [] html_utf8 0)
                  \<and> printed (snd (do_POST env s req))
                      = printed s @ (case fst (quit_old (mpv_process s)) of
                                       None \<Rightarrow> [] | Some e \<Rightarrow> [e])
                  \<and> (mpv_process s = None \<longrightarrow>
                        fst (quit_old (mpv_process s)) = Some AttributeError)
                  \<and> (\<forall>p. mpv_process s = Some p \<and> \<not> reader_open p \<longrightarrow>
                        fst (quit_old (mpv_process s)) = Some BrokenPipeError)
             else fst (do_POST env s req) = Responded (respond_notfound (ErrText OSError))"
  proof (cases "can_spawn env (play_cmd g (folder_config (files env) fpath) fpath)")
    case True
    with a have f: "fst (play_file env s fpath) = Inr ()"
      and l: "printed (snd (play_file env s fpath)) = printed (log_error (fst (quit_old (mpv_process s))) s)"
      by (simp_all add: play_file_started)
    from f l a True show ?thesis
      by (cases "play_file env s fpath")
         (auto simp add: d post_play_def or_notfound_def quit_old_no_session quit_old_broken_pipe)
  next
    case False
    with a have f: "fst (play_file env s fpath) = Inl OSError"
      by (simp add: play_file_not_started)
    from f a False show ?thesis
      by (cases "play_file env s fpath") (auto simp add: d post_play_def or_notfound_def)
  qed
qed

theorem control_stream_failures_swallowed_witness:
  "fst (do_POST sample_env initial_state (control_request ''pause'' JNull))
     = Responded (respond_ok [] html_utf8 0)
   \<and> printed (snd (do_POST sample_env initial_state (control_request ''pause'' JNull)))
     = [AttributeError]
   \<and> fst (do_POST sample_env stale_state (play_request [''/media'', ''b.mkv'']))
     = Responded (respond_ok [] html_utf8 0)
   \<and> printed (snd (do_POST sample_env stale_state (play_request [''/media'', ''b.mkv''])))
     = [BrokenPipeError]"
proof -
  have l: "login (login_file sample_env) (authorization r)" for r :: "string request"
    by (simp add: sample_env_def login_def)
  have g: "mpv_config (mpv_conf sample_env) = Inr [''--fullscreen'', ''--volume=50'']"
    by code_simp
  have c: "can_spawn sample_env cmd" for cmd
    by (simp add: sample_env_def)
  have j: "join_segments (JArr [JStr ''/media'', JStr ''b.mkv''] :: string json) = Inr ''/media/b.mkv''"
    by code_simp
  have sn: "sanitize sample_env (JStr ''pause'') JNull = Inr (JStr ''pause'', None)"
    by code_simp
  have q: "fst (quit_old (mpv_process stale_state)) = Some BrokenPipeError"
    by code_simp
  have i: "mpv_process initial_state = None" "printed initial_state = []"
          "printed stale_state = []"
    by (simp_all add: initial_state_def stale_state_def running_state_def)
  show ?thesis
    using control_stream_failures_swallowed
            [OF l, of "control_request ''pause'' JNull" 0
               "JObj [(''command'', JStr ''pause''), (''val'', JNull)]"
               "JStr ''pause''" JNull "JStr ''pause''" None initial_state "[]" "[]"]
          control_stream_failures_swallowed
            [OF l, of "play_request [''/media'', ''b.mkv'']" 0
               "JArr (map JStr [''/media'', ''b.mkv''])"
               JNull JNull JNull None stale_state "''/media/b.mkv''"
               "[''--fullscreen'', ''--volume=50'']"]
    by (simp add: control_request_def play_request_def sn j g c q i send_control_no_session)
qed

text \<open>
  The claim as it stands fails for the spawn: when the player cannot be started the
  client gets the not-found response, not the success response.
\<close>

theorem control_stream_failures_swallowed_counterexample:
  "fst (do_POST (sample_env\<lparr>can_spawn := (\<lambda>cmd. False)\<rparr>) initial_state
          (play_request [''/media'', ''b.mkv'']))
     = Responded \<lparr>status = 404, www_authenticate = None, cache_max_age = None,
                  content_type = Some ''text/plain'', body = ErrText OSError\<rparr>
   \<and> fst (do_POST (sample_env\<lparr>can_spawn := (\<lambda>cmd. False)\<rparr>) initial_state
          (play_request [''/media'', ''b.mkv'']))
     \<noteq> Responded (respond_ok [] html_utf8 0)"
  by code_simp

section \<open>Numeric commands\<close>

text \<open>
  \<open>sanitize\<close> on a numeric command: a string that is not a float literal becomes
  \<open>None\<close>, a missing value makes \<open>float\<close> raise a TypeError, which \<open>sanitize\<close> does
  not handle.
\<close>

lemma sanitize_null:
  "c \<in> set numeric_commands \<Longrightarrow> sanitize env (JStr c) JNull = Inl TypeError"
  by (auto simp add: sanitize_def)

lemma sanitize_unparsed:
  "c \<in> set numeric_commands \<Longrightarrow> float_of_str env t = None \<Longrightarrow>
   sanitize env (JStr c) (JStr t) = Inr (JStr c, None)"
  by (auto simp add: sanitize_def)

text \<open>
  Claim C4, on the inputs where the code departs from it. A control request for a
  numeric command without a value (or with the value \<open>null\<close>) that has passed the
  login check is answered with the not-found response carrying the TypeError of
  \<open>float(None)\<close>; the state is unchanged, so nothing reaches the player.
\<close>

theorem numeric_command_without_value:
  assumes "c \<in> set numeric_commands"
    and "login (login_file env) (authorization req)"
    and "content_length req = Some n"
    and "path req = ''/control''"
    and "body_json req = Some j"
    and "json_get j ''command'' = Inr (JStr c)"
    and "json_get j ''val'' = Inr JNull"
  shows "sanitize env (JStr c) JNull = Inl TypeError
         \<and> do_POST env s req = (Responded (respond_notfound (ErrText TypeError)), s)"
  using assms
  by (simp add: sanitize_null do_POST_def post_control_def control_mpv_def or_notfound_def)

text \<open>
  In the sample installation: \<open>seek\<close> without a value gets the 404, with the value
  \<open>abc\<close> the command degrades as claimed and the player receives the template filled
  with \<open>None\<close>.
\<close>

theorem numeric_command_without_value_witness:
  "do_POST sample_env running_state
     \<lparr>path = ''/control'', authorization = None, content_length = Some 0,
      body_json = Some (JObj [(''command'', JStr ''seek'')])\<rparr>
   = (Responded \<lparr>status = 404, www_authenticate = None, cache_max_age = None,
                  content_type = Some ''text/plain'', body = ErrText TypeError\<rparr>,
      running_state)
   \<and> sanitize sample_env (JStr ''seek'') JNull = Inl TypeError
   \<and> sanitize sample_env (JStr ''seek'') (JStr ''abc'') = Inr (JStr ''seek'', None)
   \<and> map_option history (mpv_process (snd (do_POST sample_env running_state
         (control_request ''seek'' (JStr ''abc'')))))
      = Some [Delivered ''seek None absolute\<newline>'']"
proof -
  have n: "''seek'' \<in> set numeric_commands"
    by (simp add: numeric_commands_def)
  have l: "login (login_file sample_env) None"
    by (simp add: sample_env_def login_def)
  have a: "sanitize sample_env (JStr ''seek'') (JStr ''abc'') = Inr (JStr ''seek'', None)"
    by code_simp
  have b: "map_option history (mpv_process (snd (do_POST sample_env running_state
             (control_request ''seek'' (JStr ''abc'')))))
           = Some [Delivered ''seek None absolute\<newline>'']"
    by code_simp
  show ?thesis
    using numeric_command_without_value [of "''seek''" sample_env
        "\<lparr>path = ''/control'', authorization = None, content_length = Some 0,
          body_json = Some (JObj [(''command'', JStr ''seek'')])\<rparr>"
        0 "JObj [(''command'', JStr ''seek'')]" running_state]
    by (simp add: n l a b respond_notfound_def)
qed

section \<open>The global flags\<close>

text \<open>
  \<open>Config.mpv_config\<close> trims a line before it cuts the comment off, and the
  specification cuts before it trims. The two agree on a line where nothing is left to
  trim after the cut.
\<close>

lemma hash_not_space: "\<not> is_space (CHR ''#'')"
  by (simp add: is_space_def)

lemma rstrip_split: "s = rstrip s @ rev (takeWhile is_space (rev s))"
proof -
  have "s = rev (takeWhile is_space (rev s) @ dropWhile is_space (rev s))"
    by (simp only: takeWhile_dropWhile_id rev_rev_ident)
  also have "\<dots> = rev (dropWhile is_space (rev s)) @ rev (takeWhile is_space (rev s))"
    by (simp only: rev_append)
  finally show ?thesis
    by (simp only: rstrip_def)
qed

lemma rstrip_fixed: "t = [] \<or> \<not> is_space (last t) \<Longrightarrow> rstrip t = t"
  by (cases t rule: rev_cases) (auto simp add: rstrip_def)

lemma rstrip_all_space: "\<forall>c \<in> set w. is_space c \<Longrightarrow> rstrip w = []"
  by (simp add: rstrip_def)

lemma rstrip_last: "rstrip s \<noteq> [] \<Longrightarrow> \<not> is_space (last (rstrip s))"
proof -
  assume a: "rstrip s \<noteq> []"
  then have "dropWhile is_space (rev s) \<noteq> []"
    by (simp add: rstrip_def)
  then have "\<not> is_space (hd (dropWhile is_space (rev s)))"
    by (rule hd_dropWhile)
  moreover have "last (rstrip s) = hd (dropWhile is_space (rev s))"
    using a by (simp add: rstrip_def last_rev)
  ultimately show ?thesis by simp
qed

lemma rstrip_cons: "\<not> is_space c \<Longrightarrow> \<exists>t. rstrip (c # r) = c # t"
proof -
  assume a: "\<not> is_space c"
  have "dropWhile is_space (rev r @ [c]) = dropWhile is_space (rev r) @ [c]"
    using a by (simp add: dropWhile_append3)
  then show ?thesis
    by (simp add: rstrip_def)
qed

lemma head_of_stripped:
  assumes "\<not> is_space (last (split1_head (CHR ''#'') (rstrip u)))"
  shows "rstrip (split1_head (CHR ''#'') u) = split1_head (CHR ''#'') (rstrip u)"
proof -
  define s where "s = rstrip u"
  define w where "w = rev (takeWhile is_space (rev u))"
  have sp: "u = s @ w"
    unfolding s_def w_def by (rule rstrip_split)
  have w: "\<forall>x \<in> set w. x \<noteq> CHR ''#''"
    unfolding w_def using hash_not_space by (auto dest: set_takeWhileD)
  have l: "\<not> is_space (last (takeWhile (\<lambda>x. x \<noteq> CHR ''#'') s))"
    using assms by (simp add: s_def split1_head_def)
  show ?thesis
  proof (cases "CHR ''#'' \<in> set s")
    case True
    then have "takeWhile (\<lambda>x. x \<noteq> CHR ''#'') (s @ w) = takeWhile (\<lambda>x. x \<noteq> CHR ''#'') s"
      by (intro takeWhile_append1[where x = "CHR ''#''"]) simp_all
    with sp have hu: "takeWhile (\<lambda>x. x \<noteq> CHR ''#'') u = takeWhile (\<lambda>x. x \<noteq> CHR ''#'') s"
      by simp
    show ?thesis
      using l by (simp add: split1_head_def rstrip_fixed hu s_def [symmetric])
  next
    case False
    then have "takeWhile (\<lambda>x. x \<noteq> CHR ''#'') (s @ w) = s @ takeWhile (\<lambda>x. x \<noteq> CHR ''#'') w"
      by (intro takeWhile_append2) auto
    moreover have "takeWhile (\<lambda>x. x \<noteq> CHR ''#'') w = w"
      using w by (intro takeWhile_eq_all_conv[THEN iffD2]) auto
    moreover have "takeWhile (\<lambda>x. x \<noteq> CHR ''#'') s = s"
      using False by (intro takeWhile_eq_all_conv[THEN iffD2]) auto
    ultimately have hu: "takeWhile (\<lambda>x. x \<noteq> CHR ''#'') u = u"
      and hs: "takeWhile (\<lambda>x. x \<noteq> CHR ''#'') s = s"
      using sp by simp_all
    show ?thesis
      by (simp add: split1_head_def hu hs s_def [symmetric])
  qed
qed


lemma strip_head_of_line:
  "strip (split1_head (CHR ''#'') u) = rstrip (split1_head (CHR ''#'') (lstrip u))"
proof -
  define w where "w = takeWhile is_space u"
  define r where "r = dropWhile is_space u"
  have u: "u = w @ r"
    by (simp add: w_def r_def)
  have w: "\<forall>x \<in> set w. is_space x \<and> x \<noteq> CHR ''#''"
    unfolding w_def using hash_not_space by (auto dest: set_takeWhileD)
  have h: "takeWhile (\<lambda>x. x \<noteq> CHR ''#'') (w @ r) = w @ takeWhile (\<lambda>x. x \<noteq> CHR ''#'') r"
    using w by (intro takeWhile_append2) auto
  have d: "dropWhile is_space (w @ takeWhile (\<lambda>x. x \<noteq> CHR ''#'') r)
             = dropWhile is_space (takeWhile (\<lambda>x. x \<noteq> CHR ''#'') r)"
    using w by (intro dropWhile_append2) auto
  have n: "dropWhile is_space (takeWhile (\<lambda>x. x \<noteq> CHR ''#'') r) = takeWhile (\<lambda>x. x \<noteq> CHR ''#'') r"
  proof (cases r)
    case Nil
    then show ?thesis by simp
  next
    case (Cons c r')
    then have "\<not> is_space c"
      using hd_dropWhile [of is_space u] by (simp add: r_def)
    then show ?thesis
      using Cons by simp
  qed
  have "lstrip (split1_head (CHR ''#'') u) = split1_head (CHR ''#'') r"
    by (simp add: lstrip_def split1_head_def u h d n)
  then show ?thesis
    by (simp add: strip_def lstrip_def r_def)
qed

lemma plain_line_kept:
  assumes "plain_line u"
  shows "(u \<noteq> [] \<and> \<not> startswith (strip u) ''#'') = (strip (split1_head (CHR ''#'') u) \<noteq> [])"
    and "u \<noteq> [] \<and> \<not> startswith (strip u) ''#'' \<Longrightarrow>
         split1_head (CHR ''#'') (strip u) = strip (split1_head (CHR ''#'') u)"
proof -
  define r where "r = lstrip u"
  have s: "strip u = rstrip r"
    by (simp add: strip_def r_def)
  have t: "strip (split1_head (CHR ''#'') u) = rstrip (split1_head (CHR ''#'') r)"
    by (simp add: strip_head_of_line r_def)
  have both: "(u \<noteq> [] \<and> \<not> startswith (strip u) ''#'') = (strip (split1_head (CHR ''#'') u) \<noteq> [])
      \<and> (u \<noteq> [] \<and> \<not> startswith (strip u) ''#'' \<longrightarrow>
         split1_head (CHR ''#'') (strip u) = strip (split1_head (CHR ''#'') u))"
  proof (cases r)
    case Nil
    then have "strip u = []"
      by (simp add: s rstrip_def)
    with assms have "u = []"
      by (simp add: plain_line_def)
    then show ?thesis
      by (simp add: strip_def lstrip_def rstrip_def split1_head_def)
  next
    case (Cons c r')
    then have c: "\<not> is_space c"
      using hd_dropWhile [of is_space u] by (simp add: r_def lstrip_def)
    then obtain t' where t': "rstrip (c # r') = c # t'"
      using rstrip_cons by blast
    have ne: "u \<noteq> []"
      using Cons by (auto simp add: r_def lstrip_def)
    show ?thesis
    proof (cases "c = CHR ''#''")
      case True
      then show ?thesis
        using Cons t' s t by (simp add: startswith_def split1_head_def rstrip_def)
    next
      case False
      have "\<not> is_space (last (split1_head (CHR ''#'') (rstrip r)))"
        using assms False Cons t' s by (simp add: plain_line_def split1_head_def)
      then have eq: "rstrip (split1_head (CHR ''#'') r) = split1_head (CHR ''#'') (rstrip r)"
        by (rule head_of_stripped)
      show ?thesis
        using False ne Cons t' s t eq by (simp add: startswith_def split1_head_def)
    qed
  qed
  from both show "(u \<noteq> [] \<and> \<not> startswith (strip u) ''#'') = (strip (split1_head (CHR ''#'') u) \<noteq> [])"
    by blast
  from both show "u \<noteq> [] \<and> \<not> startswith (strip u) ''#'' \<Longrightarrow>
         split1_head (CHR ''#'') (strip u) = strip (split1_head (CHR ''#'') u)"
    by blast
qed

lemma flags_of_plain_lines:
  "\<forall>u \<in> set ls. plain_line u \<Longrightarrow>
   map (\<lambda>u. ''--'' @ split1_head (CHR ''#'') (strip u))
     (filter (\<lambda>u. u \<noteq> [] \<and> \<not> startswith (strip u) ''#'') ls)
   = map (\<lambda>t. ''--'' @ t)
       (filter (\<lambda>t. t \<noteq> []) (map (\<lambda>u. strip (split1_head (CHR ''#'') u)) ls))"
proof (induction ls)
  case Nil
  then show ?case by simp
next
  case (Cons u ls)
  then have p: "plain_line u" by simp
  show ?case
    using Cons plain_line_kept [OF p] by auto
qed

text \<open>
  Claim C8, as amended. In server-rewrite.py, for a global config file in which no line
  consists of white space only and no white space stands directly before a \<open>#\<close>, the
  resolved list is the one of the specification's rule: cut each line at \<open>#\<close>, trim,
  skip what is empty, prefix \<open>--\<close>. The file of the scenario is such a file and resolves
  to \<open>--fullscreen\<close>, \<open>--volume=50\<close>.
\<close>

theorem global_flags_of_plain_lines:
  assumes "\<forall>line \<in> set (splitlines text). plain_line line"
  shows "mpv_config (Some text) = Inr (global_flags_spec text)"
  using flags_of_plain_lines [OF assms]
  by (simp add: mpv_config_def mpv_config_lines_def global_flags_spec_def)

theorem global_flags_of_plain_lines_witness:
  "mpv_config (Some ''fullscreen\<newline>#comment\<newline>volume=50'')
     = Inr [''--fullscreen'', ''--volume=50'']"
proof -
  have p: "\<forall>line \<in> set (splitlines ''fullscreen\<newline>#comment\<newline>volume=50''). plain_line line"
    by code_simp
  have g: "global_flags_spec ''fullscreen\<newline>#comment\<newline>volume=50''
             = [''--fullscreen'', ''--volume=50'']"
    by code_simp
  show ?thesis
    using global_flags_of_plain_lines [OF p] by (simp add: g)
qed

text \<open>
  The claim as it stands fails. server.py keeps the lines that contain \<open>=\<close> and do not
  start with \<open>#\<close>, so the file of the scenario resolves to \<open>--volume=50\<close> alone there.
  In server-rewrite.py white space in front of a comment stays in the flag, and a line of
  white space yields the flag \<open>--\<close>.
\<close>

theorem global_flags_of_plain_lines_counterexample:
  "legacy_config ''fullscreen\<newline>#comment\<newline>volume=50'' = [''--volume=50'']
   \<and> mpv_config (Some ''fullscreen # big'') = Inr [''--fullscreen '']
   \<and> global_flags_spec ''fullscreen # big'' = [''--fullscreen'']
   \<and> mpv_config (Some ''fullscreen\<newline>  \<newline>volume=50'')
       = Inr [''--fullscreen'', ''--'', ''--volume=50'']
   \<and> global_flags_spec ''fullscreen\<newline>  \<newline>volume=50'' = [''--fullscreen'', ''--volume=50'']"
  by code_simp

section \<open>The allow-list of the override flags\<close>

text \<open>
  Matching by derivatives accepts exactly the words of the expression, and the words of
  the pattern of \<open>folder_config\<close> are an allowed option name, \<open>=\<close>, and a non-empty
  value of allowed characters.
\<close>

lemma nullable_lang: "nullable r \<longleftrightarrow> [] \<in> lang r"
  by (induction r) (auto intro: star.intros)

lemma star_cons_split:
  "x \<in> star A \<Longrightarrow> x = a # w \<Longrightarrow> \<exists>u v. w = u @ v \<and> a # u \<in> A \<and> v \<in> star A"
proof (induction arbitrary: w rule: star.induct)
  case star_empty
  then show ?case by simp
next
  case (star_step u v)
  show ?case
  proof (cases u)
    case Nil
    with star_step show ?thesis by simp
  next
    case (Cons b u')
    with star_step have "b = a" and "w = u' @ v" by simp_all
    with star_step Cons show ?thesis by blast
  qed
qed

lemma star_cons:
  "a # w \<in> star A \<longleftrightarrow> (\<exists>u v. w = u @ v \<and> a # u \<in> A \<and> v \<in> star A)"
proof
  assume "a # w \<in> star A"
  then show "\<exists>u v. w = u @ v \<and> a # u \<in> A \<and> v \<in> star A"
    by (rule star_cons_split) simp
next
  assume "\<exists>u v. w = u @ v \<and> a # u \<in> A \<and> v \<in> star A"
  then obtain u v where w: "w = u @ v" and "a # u \<in> A" "v \<in> star A" by blast
  then have "(a # u) @ v \<in> star A" by (intro star.star_step)
  then show "a # w \<in> star A" using w by simp
qed

lemma seq_langI: "u \<in> lang r \<Longrightarrow> v \<in> lang s \<Longrightarrow> u @ v \<in> lang (Seq r s)"
  by auto

lemma deriv_lang: "w \<in> lang (deriv a r) \<longleftrightarrow> a # w \<in> lang r"
proof (induction r arbitrary: w)
  case (Seq r s)
  show ?case
  proof
    assume d: "w \<in> lang (deriv a (Seq r s))"
    have "w \<in> lang (Seq (deriv a r) s) \<or> (nullable r \<and> w \<in> lang (deriv a s))"
      using d by (auto split: if_splits)
    then show "a # w \<in> lang (Seq r s)"
    proof
      assume "w \<in> lang (Seq (deriv a r) s)"
      then obtain u v where "w = u @ v" "u \<in> lang (deriv a r)" "v \<in> lang s" by auto
      then have "(a # u) @ v \<in> lang (Seq r s)"
        using Seq by (intro seq_langI) simp_all
      then show ?thesis using \<open>w = u @ v\<close> by simp
    next
      assume "nullable r \<and> w \<in> lang (deriv a s)"
      then have "[] @ (a # w) \<in> lang (Seq r s)"
        using Seq by (intro seq_langI) (simp_all add: nullable_lang)
      then show ?thesis by simp
    qed
  next
    assume "a # w \<in> lang (Seq r s)"
    then obtain u v where uv: "a # w = u @ v" "u \<in> lang r" "v \<in> lang s" by auto
    show "w \<in> lang (deriv a (Seq r s))"
    proof (cases u)
      case Nil
      with uv have "nullable r" "w \<in> lang (deriv a s)"
        using Seq by (simp_all add: nullable_lang)
      then show ?thesis by simp
    next
      case (Cons b u')
      with uv have "u' \<in> lang (deriv a r)" "w = u' @ v"
        using Seq by simp_all
      with uv show ?thesis by auto
    qed
  qed
next
  case (Star r)
  show ?case
    using Star by (auto simp add: star_cons)
qed auto

lemma fullmatch_lang: "fullmatch r w \<longleftrightarrow> w \<in> lang r"
  by (induction w arbitrary: r) (simp_all add: nullable_lang deriv_lang)

lemma lang_Str: "lang (Str s) = {s}"
  by (induction s) auto

lemma lang_Opt: "lang (Opt r) = lang r \<union> {[]}"
  by (simp add: Opt_def)

lemma star_class: "star ((\<lambda>c. [c]) ` S) = {v. set v \<subseteq> S}"
proof
  show "star ((\<lambda>c. [c]) ` S) \<subseteq> {v. set v \<subseteq> S}"
  proof
    fix x assume "x \<in> star ((\<lambda>c. [c]) ` S)"
    then show "x \<in> {v. set v \<subseteq> S}"
      by (induction rule: star.induct) auto
  qed
  show "{v. set v \<subseteq> S} \<subseteq> star ((\<lambda>c. [c]) ` S)"
  proof
    fix x assume "x \<in> {v. set v \<subseteq> S}"
    then have "set x \<subseteq> S" by simp
    then show "x \<in> star ((\<lambda>c. [c]) ` S)"
    proof (induction x)
      case Nil
      show ?case by (rule star.star_empty)
    next
      case (Cons c x)
      then have "[c] @ x \<in> star ((\<lambda>c. [c]) ` S)"
        by (intro star.star_step) auto
      then show ?case by simp
    qed
  qed
qed

lemma lang_Plus_Cls: "v \<in> lang (Plus (Cls cs)) \<longleftrightarrow> v \<noteq> [] \<and> set v \<subseteq> set cs"
proof
  assume "v \<in> lang (Plus (Cls cs))"
  then show "v \<noteq> [] \<and> set v \<subseteq> set cs"
    by (auto simp add: Plus_def star_class)
next
  assume a: "v \<noteq> [] \<and> set v \<subseteq> set cs"
  then obtain c v' where v: "v = [c] @ v'" by (cases v) auto
  with a have "[c] \<in> lang (Cls cs)" "v' \<in> lang (Star (Cls cs))"
    by (auto simp add: star_class)
  then have "[c] @ v' \<in> lang (Seq (Cls cs) (Star (Cls cs)))"
    by (rule seq_langI)
  then show "v \<in> lang (Plus (Cls cs))"
    by (simp only: v Plus_def)
qed

lemma seq_lang_sets:
  "lang r = set xs \<Longrightarrow> lang s = set ys \<Longrightarrow>
   lang (Seq r s) = set (concat (map (\<lambda>u. map (\<lambda>v. u @ v) ys) xs))"
  by auto

lemma alt_lang_sets:
  "lang r = set xs \<Longrightarrow> lang s = set ys \<Longrightarrow> lang (Alt r s) = set (xs @ ys)"
  by auto

lemma str_lang_set: "lang (Str s) = set [s]"
  by (simp add: lang_Str)

lemma chr_lang_set: "lang (Chr c) = set [[c]]"
  by simp

lemma opt_lang_sets: "lang r = set xs \<Longrightarrow> lang (Opt r) = set (xs @ [[]])"
  by (auto simp add: Opt_def)

lemma lang_name:
  "lang (Alt (Seq (Opt (Str ''secondary-''))
                 (Seq (Alt (Chr CHR ''a'') (Alt (Chr CHR ''s'') (Chr CHR ''v'')))
                      (Alt (Str ''id'') (Str ''lang''))))
              (Seq (Alt (Str ''sub'') (Str ''audio'')) (Str ''-delay'')))
   = set allowed_names"
proof -
  note l = alt_lang_sets [OF
      seq_lang_sets [OF opt_lang_sets [OF str_lang_set [of "''secondary-''"]]
        seq_lang_sets [OF alt_lang_sets [OF chr_lang_set [of "CHR ''a''"]
                             alt_lang_sets [OF chr_lang_set [of "CHR ''s''"] chr_lang_set [of "CHR ''v''"]]]
                          alt_lang_sets [OF str_lang_set [of "''id''"] str_lang_set [of "''lang''"]]]]
      seq_lang_sets [OF alt_lang_sets [OF str_lang_set [of "''sub''"] str_lang_set [of "''audio''"]]
                        str_lang_set [of "''-delay''"]]]
  show ?thesis
    unfolding l allowed_names_def by (simp only: concat.simps list.map append.simps) auto
qed


lemma lang_allowed:
  "c \<in> lang allowed \<longleftrightarrow>
     (\<exists>nm v. c = nm @ CHR ''='' # v \<and> nm \<in> set allowed_names
             \<and> v \<noteq> [] \<and> set v \<subseteq> set value_chars)"
proof -
  have "c \<in> lang allowed \<longleftrightarrow>
          (\<exists>nm w. c = nm @ w \<and> nm \<in> set allowed_names
                 \<and> w \<in> lang (Seq (Chr CHR ''='') (Plus (Cls value_chars))))"
    unfolding allowed_def lang.simps(5) [of _ "Seq (Chr CHR ''='') (Plus (Cls value_chars))"]
      lang_name
    by blast
  also have "\<dots> \<longleftrightarrow> (\<exists>nm v. c = nm @ CHR ''='' # v \<and> nm \<in> set allowed_names
             \<and> v \<in> lang (Plus (Cls value_chars)))"
    by auto
  finally show ?thesis
    by (simp only: lang_Plus_Cls)
qed

lemma names_without_equals: "nm \<in> set allowed_names \<Longrightarrow> CHR ''='' \<notin> set nm"
  by (auto simp add: allowed_names_def)

lemma allow_listed_iff:
  "allow_listed c \<longleftrightarrow>
     (\<exists>nm v. c = nm @ CHR ''='' # v \<and> nm \<in> set allowed_names
             \<and> v \<noteq> [] \<and> set v \<subseteq> set value_chars)"
proof
  assume a: "allow_listed c"
  define nm where "nm = takeWhile (\<lambda>x. x \<noteq> CHR ''='') c"
  define rest where "rest = dropWhile (\<lambda>x. x \<noteq> CHR ''='') c"
  have c: "c = nm @ rest"
    by (simp add: nm_def rest_def)
  have "CHR ''='' \<in> set c"
    using a by (simp add: allow_listed_def Let_def)
  then have "rest \<noteq> []"
    by (auto simp add: rest_def dropWhile_eq_Nil_conv)
  moreover from this have "hd rest = CHR ''=''"
    using hd_dropWhile [of "\<lambda>x. x \<noteq> CHR ''=''" c] by (simp add: rest_def)
  ultimately obtain v where v: "rest = CHR ''='' # v"
    by (cases rest) auto
  have d: "drop (Suc (length nm)) c = v"
    by (simp add: c v)
  from a have n: "nm \<in> set allowed_names"
    by (simp add: allow_listed_def Let_def split1_head_def nm_def)
  from a have "drop (Suc (length nm)) c \<noteq> []"
    and "\<forall>x \<in> set (drop (Suc (length nm)) c). x \<in> set value_chars"
    by (simp_all add: allow_listed_def Let_def split1_head_def nm_def)
  then have vv: "v \<noteq> []" "set v \<subseteq> set value_chars"
    unfolding d by auto
  have "c = nm @ CHR ''='' # v"
    using c v by simp
  with n vv show "\<exists>nm v. c = nm @ CHR ''='' # v \<and> nm \<in> set allowed_names
             \<and> v \<noteq> [] \<and> set v \<subseteq> set value_chars"
    by blast
next
  assume "\<exists>nm v. c = nm @ CHR ''='' # v \<and> nm \<in> set allowed_names
             \<and> v \<noteq> [] \<and> set v \<subseteq> set value_chars"
  then obtain nm v where c: "c = nm @ CHR ''='' # v" and n: "nm \<in> set allowed_names"
    and v: "v \<noteq> []" "set v \<subseteq> set value_chars"
    by blast
  have t: "takeWhile (\<lambda>x. x \<noteq> CHR ''='') c = nm"
    unfolding c using names_without_equals [OF n] by (subst takeWhile_append2) auto
  have e: "CHR ''='' \<in> set c" and d: "drop (Suc (length nm)) c = v"
    by (simp_all add: c)
  show "allow_listed c"
    unfolding allow_listed_def Let_def split1_head_def t d using n v e by auto
qed

lemma splitlines_no_break:
  "l \<in> set (splitlines t) \<Longrightarrow> x \<in> set l \<Longrightarrow> \<not> is_linebreak x"
proof (induction t arbitrary: l rule: splitlines.induct)
  case 1
  then show ?case by simp
next
  case (2 c cs)
  show ?case
  proof (cases "is_linebreak c")
    case True
    show ?thesis
    proof (cases cs)
      case Nil
      with True "2.prems" show ?thesis by simp
    next
      case (Cons d ds)
      show ?thesis
      proof (cases "c = CHR 0x0D \<and> d = CHR 0x0A")
        case crlf: True
        with True Cons "2.prems" have "l \<in> set (splitlines ds)"
          by auto
        with True Cons crlf show ?thesis
          using "2.IH"(1) "2.prems"(2) by blast
      next
        case other: False
        with True Cons "2.prems" have "l \<in> set (splitlines cs)"
          by auto
        with True Cons other show ?thesis
          using "2.IH"(2) "2.prems"(2) by blast
      qed
    qed
  next
    case False
    show ?thesis
    proof (cases "splitlines cs")
      case Nil
      with False "2.prems" show ?thesis by auto
    next
      case (Cons l' ls)
      with False "2.prems" have "l = c # l' \<or> l \<in> set ls"
        by auto
      then show ?thesis
      proof
        assume "l = c # l'"
        then have "x = c \<or> x \<in> set l'"
          using "2.prems"(2) by auto
        moreover have "l' \<in> set (splitlines cs)"
          using Cons by simp
        ultimately show ?thesis
          using False "2.IH"(3) by blast
      next
        assume "l \<in> set ls"
        then have "l \<in> set (splitlines cs)"
          using Cons by simp
        then show ?thesis
          using False "2.IH"(3) "2.prems"(2) by blast
      qed
    qed
  qed
qed

lemma re_match_allowed:
  assumes "CHR 0x0A \<notin> set c"
  shows "re_match_dollar allowed c \<longleftrightarrow> allow_listed c"
proof -
  have "\<not> (c \<noteq> [] \<and> last c = CHR 0x0A)"
    using assms last_in_set by metis
  then have "re_match_dollar allowed c \<longleftrightarrow> fullmatch allowed c"
    by (auto simp add: re_match_dollar_def)
  also have "\<dots> \<longleftrightarrow> c \<in> lang allowed"
    by (rule fullmatch_lang)
  also have "\<dots> \<longleftrightarrow> allow_listed c"
    by (simp only: lang_allowed allow_listed_iff)
  finally show ?thesis .
qed

text \<open>
  Claim C5. The flags that \<open>folder_config\<close> resolves for a target are, in the order of
  the file, the lines of the \<open>mpv-remote.conf\<close> beside the target that are
  allow-listed, each prefixed with \<open>--\<close>; a line that is not allow-listed contributes
  nothing, and there are no flags when the file does not exist.
\<close>

theorem override_flags_allow_listed:
  "folder_config fs fpath =
     (case fs (conf_path fpath) of
        None \<Rightarrow> []
      | Some text \<Rightarrow> map (\<lambda>c. ''--'' @ c) (filter allow_listed (splitlines text)))"
proof (cases "fs (conf_path fpath)")
  case None
  then show ?thesis by (simp add: folder_config_def)
next
  case (Some content)
  have "filter (\<lambda>c. re_match_dollar allowed c) (splitlines content)
          = filter allow_listed (splitlines content)"
  proof (rule filter_cong [OF refl])
    fix c assume "c \<in> set (splitlines content)"
    then have "CHR 0x0A \<notin> set c"
      using splitlines_no_break [of c content "CHR 0x0A"] by (auto simp add: is_linebreak_def)
    then show "re_match_dollar allowed c = allow_listed c"
      by (rule re_match_allowed)
  qed
  with Some show ?thesis by (simp add: folder_config_def)
qed

theorem override_flags_allow_listed_witness:
  "folder_config (files sample_env) ''/media/a.mkv'' = [''--sid=2'', ''--sub-delay=-0.5'']
   \<and> allow_listed ''sid=2'' \<and> \<not> allow_listed ''script=/tmp/x.lua''
   \<and> allow_listed ''sub-delay=-0.5''"
proof -
  have f: "files sample_env (conf_path ''/media/a.mkv'')
             = Some ''sid=2\<newline>script=/tmp/x.lua\<newline>sub-delay=-0.5''"
    by code_simp
  have l: "splitlines ''sid=2\<newline>script=/tmp/x.lua\<newline>sub-delay=-0.5''
             = [''sid=2'', ''script=/tmp/x.lua'', ''sub-delay=-0.5'']"
    by code_simp
  have a1: "allow_listed ''sid=2''"
    by code_simp
  have a2: "\<not> allow_listed ''script=/tmp/x.lua''"
    by code_simp
  have a3: "allow_listed ''sub-delay=-0.5''"
    by code_simp
  have e: "folder_config (files sample_env) ''/media/a.mkv''
             = map (\<lambda>c. ''--'' @ c)
                 (filter allow_listed [''sid=2'', ''script=/tmp/x.lua'', ''sub-delay=-0.5''])"
    using override_flags_allow_listed [of "files sample_env" "''/media/a.mkv''"]
    by (simp only: f l option.simps)
  show ?thesis
    unfolding e using a1 a2 a3 by simp
qed

section \<open>The order of the directory listing\<close>

text \<open>
  \<open>sort_compare\<close> is negative exactly when its first argument may stand before its
  second in the order of the specification. That order is total and transitive, so
  insertion keeps a list in order.
\<close>

lemma sort_compare_order: "sort_compare a b < 0 \<longleftrightarrow> listing_order a b"
  by (auto simp add: sort_compare_def listing_order_def)

lemma listing_order_total: "listing_order a b \<or> listing_order b a"
  by (auto simp add: listing_order_def)

lemma listing_order_trans:
  "listing_order a b \<Longrightarrow> listing_order b c \<Longrightarrow> listing_order a c"
  by (auto simp add: listing_order_def)

lemma set_insert_key: "set (insert_key cmp x ys) = insert x (set ys)"
  by (induction ys) auto

lemma sorted_insert_key:
  "sorted_wrt listing_order ys \<Longrightarrow> sorted_wrt listing_order (insert_key sort_compare x ys)"
proof (induction ys)
  case Nil
  then show ?case by simp
next
  case (Cons y ys)
  show ?case
  proof (cases "sort_compare x y < 0")
    case True
    then have xy: "listing_order x y"
      by (simp add: sort_compare_order)
    have "\<forall>z \<in> set ys. listing_order x z"
      using Cons.prems xy listing_order_trans by auto
    with True xy Cons.prems show ?thesis by simp
  next
    case False
    then have yx: "listing_order y x"
      using listing_order_total [of x y] by (simp add: sort_compare_order)
    have "sorted_wrt listing_order (insert_key sort_compare x ys)"
      using Cons by simp
    with False yx Cons.prems show ?thesis
      by (simp add: set_insert_key)
  qed
qed

lemma sorted_foldl_insert:
  "sorted_wrt listing_order acc \<Longrightarrow>
   sorted_wrt listing_order (foldl (\<lambda>acc x. insert_key sort_compare x acc) acc xs)"
  by (induction xs arbitrary: acc) (simp_all add: sorted_insert_key)

lemma sorted_by_cmp_sorted: "sorted_wrt listing_order (sorted_by_cmp sort_compare xs)"
  by (simp add: sorted_by_cmp_def sorted_foldl_insert)

lemma content_links_listed: "content_links xs = map link_of (filter listed xs)"
  by (induction xs) (auto simp add: listed_def)


lemma set_foldl_insert:
  "set (foldl (\<lambda>acc x. insert_key cmp x acc) acc xs) = set acc \<union> set xs"
  by (induction xs arbitrary: acc) (auto simp add: set_insert_key)

lemma set_sorted_by_cmp: "set (sorted_by_cmp cmp xs) = set xs"
  by (simp add: sorted_by_cmp_def set_foldl_insert)

text \<open>
  Claim C2. After the link that plays everything, the listing of
  \<open>generate_content_links\<close> holds one link for each item that exists, is a file or a
  directory and whose name does not start with a dot, and these items stand in the order
  of the specification: every directory before every file, a directory modified later
  before one modified earlier, a file before another whose lower-cased path is greater.
\<close>

theorem listing_sorted:
  "generate_content_links dir items
     = \<lparr>cls = ''file'', func = ''play'', fa = ''fa fa-asterisk'',
        target = path_child dir ''*'', text_of = ''(play all)''\<rparr>
       # map link_of (filter listed (sorted_by_cmp sort_compare (valid_items items)))
   \<and> sorted_wrt listing_order (filter listed (sorted_by_cmp sort_compare (valid_items items)))
   \<and> set (filter listed (sorted_by_cmp sort_compare (valid_items items)))
       = {x \<in> set items. exists_entry x \<and> listed x}"
proof (intro conjI)
  show "generate_content_links dir items
     = \<lparr>cls = ''file'', func = ''play'', fa = ''fa fa-asterisk'',
        target = path_child dir ''*'', text_of = ''(play all)''\<rparr>
       # map link_of (filter listed (sorted_by_cmp sort_compare (valid_items items)))"
    by (simp add: generate_content_links_def content_links_listed)
  show "sorted_wrt listing_order (filter listed (sorted_by_cmp sort_compare (valid_items items)))"
    by (intro sorted_wrt_filter sorted_by_cmp_sorted)
  show "set (filter listed (sorted_by_cmp sort_compare (valid_items items)))
       = {x \<in> set items. exists_entry x \<and> listed x}"
    by (auto simp add: set_sorted_by_cmp valid_items_def)
qed

theorem listing_sorted_witness:
  "map target (generate_content_links ''/media'' sample_items)
     = [''/media/*'', ''/media/new'', ''/media/old'', ''/media/A.mkv'',
        ''/media/b.txt'', ''/media/Zed.avi'']
   \<and> sorted_wrt listing_order
        (filter listed (sorted_by_cmp sort_compare (valid_items sample_items)))"
proof -
  have t: "map target (generate_content_links ''/media'' sample_items)
     = [''/media/*'', ''/media/new'', ''/media/old'', ''/media/A.mkv'',
        ''/media/b.txt'', ''/media/Zed.avi'']"
    by code_simp
  show ?thesis
    using listing_sorted [of "''/media''" sample_items] t by blast
qed

end
